theory Spec2Isabelle
  imports Complex_Main
begin

section \<open>JavaScript numbers\<close>

text \<open>
  Every numeric field of the program is a JavaScript \<^verbatim>\<open>number\<close>.  The model keeps the
  special values that the source itself tests for (\<^verbatim>\<open>Number.isFinite\<close>, truthiness in
  \<^verbatim>\<open>options.fps || DEFAULT_FPS\<close>) and computes exactly on finite values: rounding,
  overflow to infinity and the sign of zero are outside the model.
\<close>

datatype jsnum = Fin rat | PInf | NInf | NaN

instantiation jsnum :: "{plus, minus, ord}"
begin

fun plus_jsnum :: "jsnum \<Rightarrow> jsnum \<Rightarrow> jsnum" where
  "plus_jsnum NaN b = NaN"
| "plus_jsnum a NaN = NaN"
| "plus_jsnum (Fin a) (Fin b) = Fin (a + b)"
| "plus_jsnum PInf NInf = NaN"
| "plus_jsnum NInf PInf = NaN"
| "plus_jsnum PInf b = PInf"
| "plus_jsnum a PInf = PInf"
| "plus_jsnum NInf b = NInf"
| "plus_jsnum a NInf = NInf"

fun minus_jsnum :: "jsnum \<Rightarrow> jsnum \<Rightarrow> jsnum" where
  "minus_jsnum NaN b = NaN"
| "minus_jsnum a NaN = NaN"
| "minus_jsnum (Fin a) (Fin b) = Fin (a - b)"
| "minus_jsnum PInf PInf = NaN"
| "minus_jsnum NInf NInf = NaN"
| "minus_jsnum PInf b = PInf"
| "minus_jsnum a NInf = PInf"
| "minus_jsnum NInf b = NInf"
| "minus_jsnum a PInf = NInf"

fun less_jsnum :: "jsnum \<Rightarrow> jsnum \<Rightarrow> bool" where
  "less_jsnum NaN b = False"
| "less_jsnum a NaN = False"
| "less_jsnum (Fin a) (Fin b) = (a < b)"
| "less_jsnum PInf b = False"
| "less_jsnum a NInf = False"
| "less_jsnum NInf b = True"
| "less_jsnum a PInf = True"

fun less_eq_jsnum :: "jsnum \<Rightarrow> jsnum \<Rightarrow> bool" where
  "less_eq_jsnum NaN b = False"
| "less_eq_jsnum a NaN = False"
| "less_eq_jsnum (Fin a) (Fin b) = (a \<le> b)"
| "less_eq_jsnum NInf b = True"
| "less_eq_jsnum a PInf = True"
| "less_eq_jsnum PInf b = False"
| "less_eq_jsnum a NInf = False"

instance ..

end

text \<open>\<^verbatim>\<open>a / b\<close>; a zero divisor counts as \<^verbatim>\<open>+0\<close>.\<close>

fun js_div :: "jsnum \<Rightarrow> jsnum \<Rightarrow> jsnum" where
  "js_div NaN b = NaN"
| "js_div a NaN = NaN"
| "js_div (Fin a) (Fin b) =
     (if b = 0 then (if a = 0 then NaN else if 0 < a then PInf else NInf) else Fin (a / b))"
| "js_div (Fin a) b = Fin 0"
| "js_div PInf (Fin b) = (if 0 \<le> b then PInf else NInf)"
| "js_div NInf (Fin b) = (if 0 \<le> b then NInf else PInf)"
| "js_div a b = NaN"

text \<open>\<^verbatim>\<open>Math.min\<close> and \<^verbatim>\<open>Math.max\<close> return \<^verbatim>\<open>NaN\<close> as soon as one argument is \<^verbatim>\<open>NaN\<close>.\<close>

definition Math_min :: "jsnum \<Rightarrow> jsnum \<Rightarrow> jsnum" where
  "Math_min a b = (if a = NaN \<or> b = NaN then NaN else if a < b then a else b)"

definition Math_max :: "jsnum \<Rightarrow> jsnum \<Rightarrow> jsnum" where
  "Math_max a b = (if a = NaN \<or> b = NaN then NaN else if a < b then b else a)"

fun isFinite :: "jsnum \<Rightarrow> bool" where
  "isFinite (Fin a) = True"
| "isFinite a = False"

text \<open>Truthiness of a number: \<^verbatim>\<open>0\<close> and \<^verbatim>\<open>NaN\<close> are falsy.\<close>

definition truthy :: "jsnum \<Rightarrow> bool" where
  "truthy a = (a \<noteq> Fin 0 \<and> a \<noteq> NaN)"

section \<open>CollisionSystem.ts\<close>

record BoundingBox =
  x :: jsnum
  y :: jsnum
  width :: jsnum
  height :: jsnum

text \<open>The \<^verbatim>\<open>overlap\<close> object \<^verbatim>\<open>{x, y}\<close> is the pair \<open>(x, y)\<close>; an absent field is \<open>None\<close>.\<close>

record CollisionResult =
  hasCollision :: bool
  overlap :: "(jsnum \<times> jsnum) option"

datatype error = Error string | TypeError

text \<open>
  \<^verbatim>\<open>validateBoundingBox\<close>: the first test (\<^verbatim>\<open>!box\<close>, \<^verbatim>\<open>typeof\<close> of each field) cannot
  fail on a typed record; the second rejects negative dimensions.
\<close>

definition validateBoundingBox :: "'a BoundingBox_scheme \<Rightarrow> error + unit" where
  "validateBoundingBox box =
     (if width box < Fin 0 \<or> height box < Fin 0
      then Inl (Error ''Bounding box dimensions cannot be negative'')
      else Inr ())"

definition detectAABBCollision ::
  "'a BoundingBox_scheme \<Rightarrow> 'b BoundingBox_scheme \<Rightarrow> CollisionResult" where
  "detectAABBCollision boxA boxB =
     (let xOverlap = Math_min (x boxA + width boxA - x boxB) (x boxB + width boxB - x boxA);
          yOverlap = Math_min (y boxA + height boxA - y boxB) (y boxB + height boxB - y boxA)
      in if Fin 0 < xOverlap \<and> Fin 0 < yOverlap
         then \<lparr>hasCollision = True, overlap = Some (xOverlap, yOverlap)\<rparr>
         else \<lparr>hasCollision = False, overlap = None\<rparr>)"

text \<open>
  \<^verbatim>\<open>checkCollision\<close>: the \<^verbatim>\<open>catch\<close> block logs and rethrows, so a validation error
  reaches the caller unchanged.
\<close>

definition checkCollision ::
  "'a BoundingBox_scheme \<Rightarrow> 'b BoundingBox_scheme \<Rightarrow> error + CollisionResult" where
  "checkCollision boxA boxB =
     (case validateBoundingBox boxA of
        Inl e \<Rightarrow> Inl e
      | Inr _ \<Rightarrow>
          (case validateBoundingBox boxB of
             Inl e \<Rightarrow> Inl e
           | Inr _ \<Rightarrow>
               (let collision = detectAABBCollision boxA boxB
                in if \<not> hasCollision collision
                   then Inr \<lparr>hasCollision = False, overlap = None\<rparr>
                   else Inr \<lparr>hasCollision = True, overlap = overlap collision\<rparr>)))"

section \<open>Quadtree.ts\<close>

text \<open>
  \<^verbatim>\<open>Boundary\<close> has the fields of \<^verbatim>\<open>BoundingBox\<close>; \<^verbatim>\<open>QuadtreeObject\<close> adds the optional
  \<^verbatim>\<open>id\<close> (a string or a number), here \<open>obj_id\<close>.
\<close>

type_synonym Boundary = BoundingBox

datatype ident = IdStr string | IdNum jsnum

record QuadtreeObject = BoundingBox +
  obj_id :: "ident option"

definition MAX_OBJECTS :: nat where
  "MAX_OBJECTS = 10"

definition MAX_LEVELS :: int where
  "MAX_LEVELS = 5"

definition MIN_SIZE :: jsnum where
  "MIN_SIZE = Fin 16"

text \<open>
  A node of the tree: \<^verbatim>\<open>nodes\<close> is the array of children, empty on a leaf.
  The level is an integer (0 for the root, one more for each child).
\<close>

datatype Quadtree =
  Quadtree (boundary: Boundary) (objects: "QuadtreeObject list") (nodes: "Quadtree list")
    (level: int)

definition isValidBoundary :: "Boundary \<Rightarrow> bool" where
  "isValidBoundary b =
     (Fin 0 < width b \<and> Fin 0 < height b \<and> isFinite (x b) \<and> isFinite (y b))"

text \<open>The constructor \<^verbatim>\<open>new Quadtree(boundary, level)\<close>.\<close>

definition Quadtree_new :: "Boundary \<Rightarrow> int \<Rightarrow> error + Quadtree" where
  "Quadtree_new b l =
     (if \<not> isValidBoundary b then Inl (Error ''Invalid boundary provided to Quadtree'')
      else Inr (Quadtree b [] [] l))"

text \<open>\<^verbatim>\<open>clear\<close> empties the children and then drops them.\<close>

definition clear :: "Quadtree \<Rightarrow> Quadtree" where
  "clear t = Quadtree (boundary t) [] [] (level t)"

text \<open>
  \<^verbatim>\<open>split\<close> assigns \<^verbatim>\<open>nodes[0]\<close> to \<^verbatim>\<open>nodes[3]\<close> in turn; each child is built by the
  constructor, whose validation failure propagates.
\<close>

definition split :: "Quadtree \<Rightarrow> error + Quadtree" where
  "split t =
     (let subWidth = js_div (width (boundary t)) (Fin 2);
          subHeight = js_div (height (boundary t)) (Fin 2);
          x0 = x (boundary t);
          y0 = y (boundary t)
      in if subWidth < MIN_SIZE \<or> subHeight < MIN_SIZE then Inr t
         else
           (case Quadtree_new \<lparr>x = x0 + subWidth, y = y0, width = subWidth, height = subHeight\<rparr>
                   (level t + 1) of
              Inl e \<Rightarrow> Inl e
            | Inr n0 \<Rightarrow>
           (case Quadtree_new \<lparr>x = x0, y = y0, width = subWidth, height = subHeight\<rparr>
                   (level t + 1) of
              Inl e \<Rightarrow> Inl e
            | Inr n1 \<Rightarrow>
           (case Quadtree_new \<lparr>x = x0, y = y0 + subHeight, width = subWidth, height = subHeight\<rparr>
                   (level t + 1) of
              Inl e \<Rightarrow> Inl e
            | Inr n2 \<Rightarrow>
           (case Quadtree_new
                   \<lparr>x = x0 + subWidth, y = y0 + subHeight, width = subWidth, height = subHeight\<rparr>
                   (level t + 1) of
              Inl e \<Rightarrow> Inl e
            | Inr n3 \<Rightarrow>
                Inr (Quadtree (boundary t) (objects t) ([n0, n1, n2, n3] @ drop 4 (nodes t))
                       (level t)))))))"

definition getIndices :: "Quadtree \<Rightarrow> 'a BoundingBox_scheme \<Rightarrow> nat list" where
  "getIndices t object =
     (let verticalMidpoint = x (boundary t) + js_div (width (boundary t)) (Fin 2);
          horizontalMidpoint = y (boundary t) + js_div (height (boundary t)) (Fin 2);
          topQuadrant = (y object < horizontalMidpoint \<and>
                         y object + height object < horizontalMidpoint);
          bottomQuadrant = (horizontalMidpoint < y object)
      in (if x object < verticalMidpoint \<and> x object + width object < verticalMidpoint
          then (if topQuadrant then [1] else []) @ (if bottomQuadrant then [2] else [])
          else [])
         @ (if verticalMidpoint < x object
            then (if topQuadrant then [0] else []) @ (if bottomQuadrant then [3] else [])
            else []))"

subsection \<open>insert\<close>

text \<open>
  \<^verbatim>\<open>insert\<close>, here \<open>insert_object\<close>, recurses into the children, and the redistribution
  loop of a leaf that has just split calls it on the fresh children.  Its first test
  (\<^verbatim>\<open>!this.boundary\<close>) cannot fail: the constructor always sets the boundary.  \<open>insert_each\<close> is the loop
  \<^verbatim>\<open>for (const index of indices) this.nodes[index].insert(object)\<close>; reading a missing
  child gives \<^verbatim>\<open>undefined\<close>, and the method call on it raises a \<^verbatim>\<open>TypeError\<close>.
  \<open>redistribute\<close> is the \<^verbatim>\<open>while (i < this.objects.length)\<close> loop, \<^verbatim>\<open>splice(i, 1)\<close>
  removing the object at position \<open>i\<close>.  An exception leaves the loop at once; the
  half-updated tree is not observed.

  The recursion ends because a leaf splits only below \<open>MAX_LEVELS\<close> and its children
  are one level deeper: \<open>rank\<close> bounds the height a node can still reach.
\<close>

fun maxl :: "nat list \<Rightarrow> nat" where
  "maxl [] = 0"
| "maxl (n # ns) = max n (maxl ns)"

fun rank :: "Quadtree \<Rightarrow> nat" where
  "rank (Quadtree b os ns l) =
     (if ns = [] then Suc (nat (MAX_LEVELS - l)) else Suc (maxl (map rank ns)))"

function insert_object :: "Quadtree \<Rightarrow> QuadtreeObject \<Rightarrow> error + Quadtree"
  and insert_each :: "Quadtree list \<Rightarrow> nat list \<Rightarrow> QuadtreeObject \<Rightarrow> error + Quadtree list"
  and redistribute :: "Quadtree \<Rightarrow> nat \<Rightarrow> error + Quadtree"
where
  "insert_object t object =
     (if nodes t \<noteq> [] then
        (case insert_each (nodes t) (getIndices t object) object of
           Inl e \<Rightarrow> Inl e
         | Inr ns \<Rightarrow> Inr (Quadtree (boundary t) (objects t) ns (level t)))
      else
        (let t1 = Quadtree (boundary t) (objects t @ [object]) (nodes t) (level t)
         in if MAX_OBJECTS < length (objects t1) \<and> level t1 < MAX_LEVELS then
              (case (if nodes t1 = [] then split t1 else Inr t1) of
                 Inl e \<Rightarrow> Inl e
               | Inr t2 \<Rightarrow> redistribute t2 0)
            else Inr t1))"
| "insert_each ns [] object = Inr ns"
| "insert_each ns (index # indices) object =
     (if index < length ns then
        (case insert_object (ns ! index) object of
           Inl e \<Rightarrow> Inl e
         | Inr n \<Rightarrow> insert_each (ns[index := n]) indices object)
      else Inl TypeError)"
| "redistribute t i =
     (if i < length (objects t) then
        (let indices = getIndices t (objects t ! i)
         in if indices \<noteq> [] then
              (case insert_each (nodes t) indices (objects t ! i) of
                 Inl e \<Rightarrow> Inl e
               | Inr ns \<Rightarrow>
                   redistribute
                     (Quadtree (boundary t) (take i (objects t) @ drop (Suc i) (objects t)) ns
                        (level t)) i)
            else redistribute t (Suc i))
      else Inr t)"
  by pat_completeness auto


lemma maxl_ge: "i < length ns \<Longrightarrow> ns ! i \<le> maxl ns"
  by (induction ns arbitrary: i) (auto simp: nth_Cons split: nat.splits simp: max.coboundedI2)

lemma maxl_le_iff: "maxl ns \<le> m \<longleftrightarrow> (\<forall>n \<in> set ns. n \<le> m)"
  by (induction ns) auto

lemma maxl_update:
  assumes "i < length ns" "rank n \<le> rank (ns ! i)"
  shows "maxl (map rank (ns[i := n])) \<le> maxl (map rank ns)"
proof -
  have "\<forall>k \<in> set (map rank (ns[i := n])). k \<le> maxl (map rank ns)"
  proof
    fix k assume "k \<in> set (map rank (ns[i := n]))"
    then obtain j where j: "j < length ns" "k = rank ((ns[i := n]) ! j)"
      by (auto simp: in_set_conv_nth)
    show "k \<le> maxl (map rank ns)"
    proof (cases "j = i")
      case True
      with j assms have "k \<le> rank (ns ! i)" by simp
      also have "\<dots> = map rank ns ! i" using assms by simp
      also have "\<dots> \<le> maxl (map rank ns)" using assms by (intro maxl_ge) simp
      finally show ?thesis .
    next
      case False
      with j have "k = map rank ns ! j" by simp
      also have "\<dots> \<le> maxl (map rank ns)" using j by (intro maxl_ge) simp
      finally show ?thesis .
    qed
  qed
  then show ?thesis by (simp only: maxl_le_iff)
qed

lemma rank_split:
  assumes "split t = Inr t2" "nodes t = []" "level t < MAX_LEVELS"
  shows "rank t2 \<le> rank t"
  using assms
  by (cases t)
     (auto simp: split_def Let_def Quadtree_new_def MAX_LEVELS_def
           split: if_splits sum.splits)

lemma rank_dom:
  "insert_object_insert_each_redistribute_dom (Inl (t, ob)) \<Longrightarrow>
     (\<forall>t'. insert_object t ob = Inr t' \<longrightarrow> rank t' \<le> rank t)"
  "insert_object_insert_each_redistribute_dom (Inr (Inl (ns, is, ob))) \<Longrightarrow>
     (\<forall>ns'. insert_each ns is ob = Inr ns' \<longrightarrow>
        length ns' = length ns \<and> maxl (map rank ns') \<le> maxl (map rank ns))"
  "insert_object_insert_each_redistribute_dom (Inr (Inr (t, i))) \<Longrightarrow>
     (\<forall>t'. redistribute t i = Inr t' \<longrightarrow> rank t' \<le> rank t)"
proof (induction rule: insert_object_insert_each_redistribute.pinduct)
  case (1 t object)
  show ?case
  proof (intro allI impI)
    fix t' assume r: "insert_object t object = Inr t'"
    show "rank t' \<le> rank t"
    proof (cases "nodes t \<noteq> []")
      case True
      with r 1(1) obtain ns' where ns': "insert_each (nodes t) (getIndices t object) object = Inr ns'"
        and t': "t' = Quadtree (boundary t) (objects t) ns' (level t)"
        by (auto simp: insert_object.psimps split: sum.splits)
      from 1(2)[OF True] ns' have "length ns' = length (nodes t)"
        "maxl (map rank ns') \<le> maxl (map rank (nodes t))" by auto
      with True t' show ?thesis by (cases t) auto
    next
      case False
      define t1 where "t1 = Quadtree (boundary t) (objects t @ [object]) (nodes t) (level t)"
      have rk1: "rank t1 = rank t" using False by (cases t) (simp add: t1_def)
      show ?thesis
      proof (cases "MAX_OBJECTS < length (objects t1) \<and> level t1 < MAX_LEVELS")
        case c: True
        with r 1(1) False obtain t2 where
          t2: "(if nodes t1 = [] then split t1 else Inr t1) = Inr t2"
          and r2: "redistribute t2 0 = Inr t'"
          by (auto simp: insert_object.psimps t1_def Let_def split: sum.splits if_splits)
        from 1(3)[OF False t1_def c t2] r2 have "rank t' \<le> rank t2" by blast
        moreover have "rank t2 \<le> rank t1"
          using t2 c False rank_split[of t1 t2] by (auto simp: t1_def split: if_splits)
        ultimately show ?thesis using rk1 by simp
      next
        case c: False
        with r 1(1) False have "t' = t1"
          by (auto simp: insert_object.psimps t1_def Let_def split: sum.splits if_splits)
        then show ?thesis using rk1 by simp
      qed
    qed
  qed
next
  case (2 ns object)
  then show ?case by (simp add: insert_each.psimps)
next
  case (3 ns index indices object)
  show ?case
  proof (intro allI impI)
    fix ns' assume r: "insert_each ns (index # indices) object = Inr ns'"
    with 3(1) obtain n where lt: "index < length ns"
      and n: "insert_object (ns ! index) object = Inr n"
      and rest: "insert_each (ns[index := n]) indices object = Inr ns'"
      by (auto simp: insert_each.psimps split: if_splits sum.splits)
    from 3(2)[OF lt] n have rn: "rank n \<le> rank (ns ! index)" by blast
    from 3(3)[OF lt n] rest have
      "length ns' = length (ns[index := n])"
      "maxl (map rank ns') \<le> maxl (map rank (ns[index := n]))" by auto
    with maxl_update[OF lt rn]
    show "length ns' = length ns \<and> maxl (map rank ns') \<le> maxl (map rank ns)" by simp
  qed
next
  case (4 t i)
  show ?case
  proof (intro allI impI)
    fix t' assume r: "redistribute t i = Inr t'"
    show "rank t' \<le> rank t"
    proof (cases "i < length (objects t)")
      case False
      with r 4(1) show ?thesis by (simp add: redistribute.psimps)
    next
      case lt: True
      show ?thesis
      proof (cases "getIndices t (objects t ! i) \<noteq> []")
        case ne: True
        with r 4(1) lt obtain ns' where
          ns': "insert_each (nodes t) (getIndices t (objects t ! i)) (objects t ! i) = Inr ns'"
          and r2: "redistribute (Quadtree (boundary t)
                     (take i (objects t) @ drop (Suc i) (objects t)) ns' (level t)) i = Inr t'"
          by (auto simp: redistribute.psimps Let_def split: sum.splits)
        from 4(2)[OF lt refl ne] ns' have len: "length ns' = length (nodes t)"
          and mx: "maxl (map rank ns') \<le> maxl (map rank (nodes t))" by auto
        from 4(3)[OF lt refl ne ns'] r2 have
          "rank t' \<le> rank (Quadtree (boundary t)
                     (take i (objects t) @ drop (Suc i) (objects t)) ns' (level t))" by blast
        moreover have "rank (Quadtree (boundary t)
                     (take i (objects t) @ drop (Suc i) (objects t)) ns' (level t)) \<le> rank t"
          using len mx by (cases t) auto
        ultimately show ?thesis by simp
      next
        case e: False
        with r 4(1) lt have "redistribute t (Suc i) = Inr t'"
          by (auto simp: redistribute.psimps Let_def)
        with 4(4)[OF lt refl e] show ?thesis by blast
      qed
    qed
  qed
qed

lemma rank_nodes_le: "Suc (maxl (map rank (nodes t))) \<le> rank t"
  by (cases t) simp

lemma rank_with_nodes:
  "length ns' = length (nodes t) \<Longrightarrow> maxl (map rank ns') \<le> maxl (map rank (nodes t)) \<Longrightarrow>
   rank (Quadtree (boundary t) os ns' (level t)) \<le> rank t"
  by (cases t) auto

lemma rank_push: "nodes t = [] \<Longrightarrow> rank (Quadtree (boundary t) os [] (level t)) = rank t"
  by (cases t) simp

termination insert_object
proof (relation "inv_image (less_than <*lex*> less_than <*lex*> less_than)
     (\<lambda>a. case a of
         Inl (t, ob) \<Rightarrow> (rank t, 3::nat, 0::nat)
       | Inr (Inl (ns, is, ob)) \<Rightarrow> (Suc (maxl (map rank ns)), 1, length is)
       | Inr (Inr (t, i)) \<Rightarrow> (rank t, 2, length (objects t) - i))", goal_cases)
  case 1
  show ?case by (intro wf_inv_image wf_lex_prod wf_less_than)
next
  case (2 t object)
  show ?case using rank_nodes_le[of t] by auto
next
  case (3 t object t1 t2)
  then have "rank t2 \<le> rank t1"
    using rank_split[of t1 t2] by (auto split: if_splits)
  moreover have "rank t1 = rank t" using 3 by (cases t) auto
  ultimately show ?case by auto
next
  case (4 ns index indices object)
  then have "rank (ns ! index) \<le> maxl (map rank ns)"
    using maxl_ge[of index "map rank ns"] by simp
  then show ?case by auto
next
  case (5 ns index indices object n)
  then have "maxl (map rank (ns[index := n])) \<le> maxl (map rank ns)"
    using rank_dom(1)[of "ns ! index" object] by (intro maxl_update) auto
  then show ?case by auto
next
  case (6 t i indices)
  show ?case using rank_nodes_le[of t] by auto
next
  case (7 t i indices ns')
  then have "length ns' = length (nodes t) \<and> maxl (map rank ns') \<le> maxl (map rank (nodes t))"
    using rank_dom(2)[of "nodes t" indices "objects t ! i"] by auto
  then have "rank (Quadtree (boundary t) (take i (objects t) @ drop (Suc i) (objects t)) ns'
               (level t)) \<le> rank t"
    by (intro rank_with_nodes) simp_all
  moreover have "length (take i (objects t) @ drop (Suc i) (objects t)) - i < length (objects t) - i"
    using 7 by auto
  ultimately show ?case by auto
next
  case (8 t i indices)
  then show ?case by auto
qed


subsection \<open>retrieve\<close>

text \<open>
  \<open>retrieve_each\<close> is the loop
  \<^verbatim>\<open>for (const index of indices) returnObjects = returnObjects.concat(this.nodes[index].retrieve(object))\<close>.
\<close>

lemma size_nth_less: "i < length ns \<Longrightarrow> size (ns ! i) < size_list size ns"
proof (induction ns arbitrary: i)
  case Nil
  then show ?case by simp
next
  case (Cons n ns)
  show ?case
  proof (cases i)
    case 0
    then show ?thesis by simp
  next
    case (Suc j)
    with Cons.prems have "j < length ns" by simp
    from Cons.IH[OF this] Suc show ?thesis by simp
  qed
qed

function retrieve :: "Quadtree \<Rightarrow> 'a BoundingBox_scheme \<Rightarrow> error + QuadtreeObject list"
  and retrieve_each ::
    "Quadtree list \<Rightarrow> nat list \<Rightarrow> 'a BoundingBox_scheme \<Rightarrow> QuadtreeObject list \<Rightarrow>
       error + QuadtreeObject list"
where
  "retrieve t object =
     (let indices = getIndices t object;
          returnObjects = objects t
      in if nodes t \<noteq> [] then retrieve_each (nodes t) indices object returnObjects
         else Inr returnObjects)"
| "retrieve_each ns [] object returnObjects = Inr returnObjects"
| "retrieve_each ns (index # indices) object returnObjects =
     (if index < length ns then
        (case retrieve (ns ! index) object of
           Inl e \<Rightarrow> Inl e
         | Inr r \<Rightarrow> retrieve_each ns indices object (returnObjects @ r))
      else Inl TypeError)"
  by pat_completeness auto
termination
proof (relation "inv_image (less_than <*lex*> less_than)
     (\<lambda>a. case a of
         Inl (t, ob) \<Rightarrow> (size t, 0::nat)
       | Inr (ns, is, ob, acc) \<Rightarrow> (size_list size ns, Suc (length is)))", goal_cases)
  case 1
  show ?case by (intro wf_inv_image wf_lex_prod wf_less_than)
next
  case (2 t object indices returnObjects)
  show ?case by (cases t) simp
next
  case (3 ns index indices object returnObjects)
  then show ?case by (simp add: size_nth_less)
next
  case (4 ns index indices object returnObjects r)
  then show ?case by simp
qed

text \<open>The static helper \<^verbatim>\<open>Quadtree.checkCollision\<close>.\<close>

definition Quadtree_checkCollision ::
  "'a BoundingBox_scheme \<Rightarrow> 'b BoundingBox_scheme \<Rightarrow> bool" where
  "Quadtree_checkCollision objA objB =
     (\<not> (x objA + width objA < x objB \<or>
         x objB + width objB < x objA \<or>
         y objA + height objA < y objB \<or>
         y objB + height objB < y objA))"

text \<open>A caller inserting a sequence of objects one after the other, stopping at an exception.\<close>

fun insert_all :: "Quadtree \<Rightarrow> QuadtreeObject list \<Rightarrow> error + Quadtree" where
  "insert_all t [] = Inr t"
| "insert_all t (object # rest) =
     (case insert_object t object of Inl e \<Rightarrow> Inl e | Inr t' \<Rightarrow> insert_all t' rest)"

section \<open>Callbacks, exceptions and effects of the loops\<close>

text \<open>
  A callback works on the game world, of type \<open>'w\<close>, and either returns or throws; the
  world it leaves behind is kept in both cases.  A callback does not call back into
  the loop that runs it.
\<close>

datatype 'a outcome = Normal 'a | Thrown error 'a

text \<open>
  What a loop does to its surroundings is recorded as a list of events, oldest first:
  each callback invocation with its argument and the exception it raised (if any),
  console output, and animation frames requested and cancelled.  The identifier that
  \<^verbatim>\<open>requestAnimationFrame\<close> returns and the clock value that \<^verbatim>\<open>performance.now()\<close>
  returns are inputs; a time stamp is a finite number.
\<close>

record GameLoopStats =
  fps :: jsnum
  frameTime :: jsnum
  updates :: jsnum
  renders :: jsnum

datatype event =
    Update jsnum "error option"
  | FixedUpdate jsnum "error option"
  | Render jsnum "error option"
  | Panic "error option"
  | Stats GameLoopStats "error option"
  | ConsoleError string error
  | ConsoleWarn string
  | RequestFrame nat
  | CancelFrame nat

section \<open>engine/GameLoop.ts\<close>

definition DEFAULT_FPS :: jsnum where
  "DEFAULT_FPS = Fin 60"

definition MAX_UPDATES_PER_FRAME :: nat where
  "MAX_UPDATES_PER_FRAME = 10"

record 'w GameLoopCallbacks =
  update :: "jsnum \<Rightarrow> 'w \<Rightarrow> 'w outcome"
  render :: "jsnum \<Rightarrow> 'w \<Rightarrow> 'w outcome"
  onPanic :: "('w \<Rightarrow> 'w outcome) option"
  onStats :: "(GameLoopStats \<Rightarrow> 'w \<Rightarrow> 'w outcome) option"

record GameLoopOptions =
  opt_fps :: "jsnum option"
  enableStats :: "bool option"
  opt_statsSampleSize :: "jsnum option"

record 'w GameLoop =
  fps :: jsnum
  frameTime :: jsnum
  running :: bool
  rafId :: nat
  lastTime :: jsnum
  accumulator :: jsnum
  statsEnabled :: bool
  statsSampleSize :: jsnum
  frameTimeHistory :: "jsnum list"
  stats :: GameLoopStats
  callbacks :: "'w GameLoopCallbacks"

text \<open>\<^verbatim>\<open>a || b\<close> on an optional number: an absent, zero or \<^verbatim>\<open>NaN\<close> value gives \<open>b\<close>.\<close>

definition or_default :: "jsnum option \<Rightarrow> jsnum \<Rightarrow> jsnum" where
  "or_default a b = (case a of None \<Rightarrow> b | Some v \<Rightarrow> if truthy v then v else b)"

text \<open>
  The constructor; \<^verbatim>\<open>validateCallbacks\<close> cannot fail, the two callbacks being functions
  by their type.
\<close>

definition GameLoop_new :: "'w GameLoopCallbacks \<Rightarrow> GameLoopOptions \<Rightarrow> 'w GameLoop" where
  "GameLoop_new cbs options =
     (let fps0 = or_default (opt_fps options) DEFAULT_FPS
      in \<lparr>GameLoop.fps = fps0,
          GameLoop.frameTime = js_div (Fin 1000) fps0,
          running = False,
          rafId = 0,
          lastTime = Fin 0,
          accumulator = Fin 0,
          statsEnabled = (case enableStats options of None \<Rightarrow> False | Some b \<Rightarrow> b),
          statsSampleSize = or_default (opt_statsSampleSize options) (Fin 60),
          frameTimeHistory = [],
          stats = \<lparr>GameLoopStats.fps = Fin 0, GameLoopStats.frameTime = Fin 0,
                    updates = Fin 0, renders = Fin 0\<rparr>,
          callbacks = cbs\<rparr>)"

text \<open>
  \<open>start g now frameId\<close>: \<open>now\<close> is the clock, \<open>frameId\<close> the identifier of the requested
  frame.  The method has no \<^verbatim>\<open>throw\<close>; its result is always \<open>Normal\<close>.
\<close>

definition start :: "'w GameLoop \<Rightarrow> rat \<Rightarrow> nat \<Rightarrow> ('w GameLoop \<times> event list) outcome" where
  "start g now frameId =
     (if running g then Normal (g, [])
      else Normal (g\<lparr>running := True, lastTime := Fin now, rafId := frameId\<rparr>,
                   [RequestFrame frameId]))"

definition stop :: "'w GameLoop \<Rightarrow> 'w GameLoop \<times> event list" where
  "stop g =
     (if \<not> running g then (g, [])
      else (g\<lparr>running := False\<rparr>, [CancelFrame (rafId g)]))"

text \<open>
  \<^verbatim>\<open>updateStats\<close>; an exception of the \<^verbatim>\<open>onStats\<close> callback is not caught anywhere and
  leaves \<^verbatim>\<open>loop\<close>.
\<close>

definition updateStats ::
  "'w GameLoop \<Rightarrow> 'w \<Rightarrow> jsnum \<Rightarrow> ('w GameLoop \<times> 'w \<times> event list) outcome" where
  "updateStats g w deltaTime =
     (let pushed = frameTimeHistory g @ [deltaTime];
          history = (if statsSampleSize g < Fin (of_nat (length pushed)) then tl pushed
                     else pushed);
          averageFrameTime = js_div (foldl (+) (Fin 0) history) (Fin (of_nat (length history)));
          st = \<lparr>GameLoopStats.fps = js_div (Fin 1000) averageFrameTime,
                GameLoopStats.frameTime = averageFrameTime,
                updates = updates (stats g) + Fin 1,
                renders = renders (stats g) + Fin 1\<rparr>;
          g' = g\<lparr>frameTimeHistory := history, stats := st\<rparr>
      in case onStats (callbacks g') of
           None \<Rightarrow> Normal (g', w, [])
         | Some f \<Rightarrow>
             (case f st w of
                Normal w' \<Rightarrow> Normal (g', w', [Stats st None])
              | Thrown e w' \<Rightarrow> Thrown e (g', w', [Stats st (Some e)])))"

text \<open>\<^verbatim>\<open>handlePanic\<close>; an exception of \<^verbatim>\<open>onPanic\<close> is not caught either.\<close>

definition handlePanic :: "'w GameLoop \<Rightarrow> 'w \<Rightarrow> ('w \<times> event list) outcome" where
  "handlePanic g w =
     (case onPanic (callbacks g) of
        None \<Rightarrow> Normal (w, [ConsoleWarn ''Game loop running slowly, skipping frames''])
      | Some f \<Rightarrow>
          (case f w of
             Normal w' \<Rightarrow>
               Normal (w', [Panic None, ConsoleWarn ''Game loop running slowly, skipping frames''])
           | Thrown e w' \<Rightarrow> Thrown e (w', [Panic (Some e)])))"

text \<open>
  The \<^verbatim>\<open>while\<close> loop of \<^verbatim>\<open>loop\<close>, from \<open>updates\<close> completed updates on.  \<open>Inl\<close> is the
  \<^verbatim>\<open>catch\<close> block, which logs, calls \<^verbatim>\<open>stop()\<close> and returns from \<^verbatim>\<open>loop\<close>; \<open>Inr\<close> is the
  normal exit with the number of updates made.
\<close>

function drain ::
  "'w GameLoop \<Rightarrow> 'w \<Rightarrow> nat \<Rightarrow> event list \<Rightarrow>
     ('w GameLoop \<times> 'w \<times> event list) + ('w GameLoop \<times> 'w \<times> nat \<times> event list)" where
  "drain g w n evs =
     (if frameTime g \<le> accumulator g \<and> n < MAX_UPDATES_PER_FRAME then
        (case update (callbacks g) (frameTime g) w of
           Normal w' \<Rightarrow>
             drain (g\<lparr>accumulator := accumulator g - frameTime g\<rparr>) w' (n + 1)
               (evs @ [Update (frameTime g) None])
         | Thrown e w' \<Rightarrow>
             (let (g', stopped) = stop g
              in Inl (g', w',
                      evs @ [Update (frameTime g) (Some e),
                             ConsoleError ''Error in update callback:'' e] @ stopped)))
      else Inr (g, w, n, evs))"
  by pat_completeness auto
termination
  by (relation "measure (\<lambda>(g, w, n, evs). MAX_UPDATES_PER_FRAME - n)") auto

declare drain.simps [simp del]

text \<open>The rest of \<^verbatim>\<open>loop\<close> after the \<^verbatim>\<open>while\<close> loop: panic, interpolation, render, next frame.\<close>

definition finish_frame ::
  "'w GameLoop \<Rightarrow> 'w \<Rightarrow> nat \<Rightarrow> event list \<Rightarrow> nat \<Rightarrow>
     ('w GameLoop \<times> 'w \<times> event list) outcome" where
  "finish_frame g w n evs frameId =
     (case (if MAX_UPDATES_PER_FRAME \<le> n then
              (case handlePanic g w of
                 Thrown e (w', pevs) \<Rightarrow> Thrown e (g, w', evs @ pevs)
               | Normal (w', pevs) \<Rightarrow> Normal (g\<lparr>accumulator := Fin 0\<rparr>, w', evs @ pevs))
            else Normal (g, w, evs)) of
        Thrown e s \<Rightarrow> Thrown e s
      | Normal (g1, w1, evs1) \<Rightarrow>
          (let interpolation = js_div (accumulator g1) (frameTime g1)
           in case render (callbacks g1) interpolation w1 of
                Thrown e w2 \<Rightarrow>
                  (let (g2, stopped) = stop g1
                   in Normal (g2, w2,
                        evs1 @ [Render interpolation (Some e),
                                ConsoleError ''Error in render callback:'' e] @ stopped))
              | Normal w2 \<Rightarrow>
                  Normal (g1\<lparr>rafId := frameId\<rparr>, w2,
                    evs1 @ [Render interpolation None, RequestFrame frameId])))"

text \<open>
  \<open>loop g w currentTime frameId\<close>: one animation frame.  The result is \<open>Thrown\<close> when an
  exception leaves \<^verbatim>\<open>loop\<close> uncaught.
\<close>

definition loop ::
  "'w GameLoop \<Rightarrow> 'w \<Rightarrow> rat \<Rightarrow> nat \<Rightarrow> ('w GameLoop \<times> 'w \<times> event list) outcome" where
  "loop g w currentTime frameId =
     (if \<not> running g then Normal (g, w, [])
      else
        (let deltaTime = Fin currentTime - lastTime g;
             g1 = g\<lparr>lastTime := Fin currentTime\<rparr>
         in case (if statsEnabled g1 then updateStats g1 w deltaTime else Normal (g1, w, [])) of
              Thrown e s \<Rightarrow> Thrown e s
            | Normal (g2, w2, evs2) \<Rightarrow>
                (case drain (g2\<lparr>accumulator := accumulator g2 + deltaTime\<rparr>) w2 0 evs2 of
                   Inl s \<Rightarrow> Normal s
                 | Inr (g3, w3, n, evs3) \<Rightarrow> finish_frame g3 w3 n evs3 frameId)))"

section \<open>systems/GameLoop.ts\<close>

text \<open>
  The two \<^verbatim>\<open>readonly\<close> fields \<^verbatim>\<open>fixedTimeStep\<close> and \<^verbatim>\<open>maxDeltaTime\<close> are constants.
\<close>

definition fixedTimeStep :: jsnum where
  "fixedTimeStep = js_div (Fin 1000) (Fin 60)"

definition GameLoop_maxDeltaTime :: jsnum where
  "GameLoop_maxDeltaTime = Fin 100"

record 'w SystemsGameLoop =
  lastTime :: jsnum
  accumulator :: jsnum
  isRunning :: bool
  animationFrameId :: "nat option"
  updateCallbacks :: "(jsnum \<Rightarrow> 'w \<Rightarrow> 'w outcome) list"
  fixedUpdateCallbacks :: "(jsnum \<Rightarrow> 'w \<Rightarrow> 'w outcome) list"
  renderCallbacks :: "(jsnum \<Rightarrow> 'w \<Rightarrow> 'w outcome) list"

definition SystemsGameLoop_new :: "'w SystemsGameLoop" where
  "SystemsGameLoop_new =
     \<lparr>SystemsGameLoop.lastTime = Fin 0, SystemsGameLoop.accumulator = Fin 0, isRunning = False,
      animationFrameId = None, updateCallbacks = [], fixedUpdateCallbacks = [],
      renderCallbacks = []\<rparr>"

definition onUpdate ::
  "'w SystemsGameLoop \<Rightarrow> (jsnum \<Rightarrow> 'w \<Rightarrow> 'w outcome) \<Rightarrow> 'w SystemsGameLoop" where
  "onUpdate g callback = g\<lparr>updateCallbacks := updateCallbacks g @ [callback]\<rparr>"

definition onFixedUpdate ::
  "'w SystemsGameLoop \<Rightarrow> (jsnum \<Rightarrow> 'w \<Rightarrow> 'w outcome) \<Rightarrow> 'w SystemsGameLoop" where
  "onFixedUpdate g callback = g\<lparr>fixedUpdateCallbacks := fixedUpdateCallbacks g @ [callback]\<rparr>"

definition onRender ::
  "'w SystemsGameLoop \<Rightarrow> (jsnum \<Rightarrow> 'w \<Rightarrow> 'w outcome) \<Rightarrow> 'w SystemsGameLoop" where
  "onRender g callback = g\<lparr>renderCallbacks := renderCallbacks g @ [callback]\<rparr>"

text \<open>
  \<^verbatim>\<open>callbacks.forEach(callback => { try { callback(arg) } catch (error) { console.error(msg, error) } })\<close>:
  every callback runs, whatever the earlier ones did.  \<open>mk\<close> names the kind of call in the
  event list.
\<close>

fun forEach_try ::
  "(jsnum \<Rightarrow> 'w \<Rightarrow> 'w outcome) list \<Rightarrow> jsnum \<Rightarrow> (jsnum \<Rightarrow> error option \<Rightarrow> event) \<Rightarrow> string \<Rightarrow>
     'w \<Rightarrow> 'w \<times> event list" where
  "forEach_try [] arg mk msg w = (w, [])"
| "forEach_try (callback # rest) arg mk msg w =
     (case callback arg w of
        Normal w' \<Rightarrow>
          (let (w'', evs) = forEach_try rest arg mk msg w' in (w'', mk arg None # evs))
      | Thrown e w' \<Rightarrow>
          (let (w'', evs) = forEach_try rest arg mk msg w'
           in (w'', mk arg (Some e) # ConsoleError msg e # evs)))"

text \<open>
  The \<^verbatim>\<open>while (this.accumulator >= this.fixedTimeStep)\<close> loop of \<^verbatim>\<open>tick\<close>.  Nothing in it
  bounds the number of rounds, so not returning is the value \<open>None\<close>.
\<close>

partial_function (option) sys_drain ::
  "'w SystemsGameLoop \<Rightarrow> 'w \<Rightarrow> event list \<Rightarrow> ('w SystemsGameLoop \<times> 'w \<times> event list) option"
where
  "sys_drain g w evs =
     (if fixedTimeStep \<le> SystemsGameLoop.accumulator g then
        (let (w', fevs) = forEach_try (fixedUpdateCallbacks g) fixedTimeStep FixedUpdate
                            ''Error in fixed update callback:'' w
         in sys_drain
              (g\<lparr>SystemsGameLoop.accumulator := SystemsGameLoop.accumulator g - fixedTimeStep\<rparr>)
              w' (evs @ fevs))
      else Some (g, w, evs))"

text \<open>\<open>sys_tick g w now frameId\<close>: \<open>now\<close> is the value of \<^verbatim>\<open>performance.now()\<close>.\<close>

definition sys_tick ::
  "'w SystemsGameLoop \<Rightarrow> 'w \<Rightarrow> rat \<Rightarrow> nat \<Rightarrow> ('w SystemsGameLoop \<times> 'w \<times> event list) option"
where
  "sys_tick g w now frameId =
     (if \<not> isRunning g then Some (g, w, [])
      else
        (let currentTime = Fin now;
             deltaTime0 = currentTime - SystemsGameLoop.lastTime g;
             g1 = g\<lparr>SystemsGameLoop.lastTime := currentTime\<rparr>;
             deltaTime = Math_min deltaTime0 GameLoop_maxDeltaTime;
             g2 = g1\<lparr>SystemsGameLoop.accumulator := SystemsGameLoop.accumulator g1 + deltaTime\<rparr>;
             (w1, evs1) = forEach_try (updateCallbacks g2) deltaTime Update
                            ''Error in update callback:'' w
         in case sys_drain g2 w1 evs1 of
              None \<Rightarrow> None
            | Some (g3, w3, evs3) \<Rightarrow>
                (let alpha = js_div (SystemsGameLoop.accumulator g3) fixedTimeStep;
                     (w4, evs4) = forEach_try (renderCallbacks g3) alpha Render
                                    ''Error in render callback:'' w3
                 in Some (g3\<lparr>animationFrameId := Some frameId\<rparr>, w4,
                          evs3 @ evs4 @ [RequestFrame frameId]))))"

text \<open>
  \<open>sys_start g w now now' frameId\<close>: \<open>now\<close> is the clock read by \<^verbatim>\<open>start\<close>, \<open>now'\<close> the
  clock read by the \<^verbatim>\<open>tick\<close> that \<^verbatim>\<open>start\<close> runs at once.
\<close>

definition sys_start ::
  "'w SystemsGameLoop \<Rightarrow> 'w \<Rightarrow> rat \<Rightarrow> rat \<Rightarrow> nat \<Rightarrow>
     ('w SystemsGameLoop \<times> 'w \<times> event list) outcome option" where
  "sys_start g w now now' frameId =
     (if isRunning g then Some (Thrown (Error ''Game loop is already running'') (g, w, []))
      else
        (case sys_tick
                (g\<lparr>isRunning := True, SystemsGameLoop.lastTime := Fin now,
                   SystemsGameLoop.accumulator := Fin 0\<rparr>) w now' frameId of
           None \<Rightarrow> None
         | Some r \<Rightarrow> Some (Normal r)))"

definition sys_stop :: "'w SystemsGameLoop \<Rightarrow> 'w SystemsGameLoop \<times> event list" where
  "sys_stop g =
     (let g1 = g\<lparr>isRunning := False\<rparr>
      in case animationFrameId g1 of
           Some i \<Rightarrow> (g1\<lparr>animationFrameId := None\<rparr>, [CancelFrame i])
         | None \<Rightarrow> (g1, []))"

section \<open>Timer.ts\<close>



definition MIN_DELTA_TIME :: jsnum where
  "MIN_DELTA_TIME = js_div (Fin 1000) (Fin 120)"


record Timer =
  lastTime :: jsnum
  accumulator :: jsnum
  fixedTimestep :: jsnum
  maxDeltaTime :: jsnum
  isPaused :: bool
  rafId :: "nat option"


text \<open>
  \<^verbatim>\<open>emitFixedUpdate\<close> and \<^verbatim>\<open>emitRenderUpdate\<close> have empty bodies; their calls are recorded
  as events.  The \<^verbatim>\<open>while (this.accumulator >= this.fixedTimestep)\<close> loop has no bound of
  its own.
\<close>

partial_function (option) timer_drain :: "Timer \<Rightarrow> event list \<Rightarrow> (Timer \<times> event list) option"
where
  "timer_drain t evs =
     (if fixedTimestep t \<le> Timer.accumulator t then
        timer_drain (t\<lparr>Timer.accumulator := Timer.accumulator t - fixedTimestep t\<rparr>)
          (evs @ [FixedUpdate (fixedTimestep t) None])
      else Some (t, evs))"

definition timer_tick :: "Timer \<Rightarrow> rat \<Rightarrow> nat \<Rightarrow> (Timer \<times> event list) option" where
  "timer_tick t now frameId =
     (let t0 = t\<lparr>Timer.rafId := Some frameId\<rparr>
      in if isPaused t0 then Some (t0, [RequestFrame frameId])
         else
           (let currentTime = Fin now;
                deltaTime0 = currentTime - Timer.lastTime t0;
                t1 = t0\<lparr>Timer.lastTime := currentTime\<rparr>;
                deltaTime1 = Math_min deltaTime0 (maxDeltaTime t1);
                deltaTime = Math_max deltaTime1 MIN_DELTA_TIME;
                t2 = t1\<lparr>Timer.accumulator := Timer.accumulator t1 + deltaTime\<rparr>
            in case timer_drain t2 [RequestFrame frameId] of
                 None \<Rightarrow> None
               | Some (t3, evs) \<Rightarrow>
                   (let alpha = js_div (Timer.accumulator t3) (fixedTimestep t3)
                    in Some (t3, evs @ [Render alpha None]))))"

definition timer_start :: "Timer \<Rightarrow> rat \<Rightarrow> rat \<Rightarrow> nat \<Rightarrow> (Timer \<times> event list) outcome option"
where
  "timer_start t now now' frameId =
     (if Timer.rafId t \<noteq> None then Some (Thrown (Error ''Timer is already running'') (t, []))
      else
        (case timer_tick (t\<lparr>Timer.lastTime := Fin now, isPaused := False\<rparr>) now' frameId of
           None \<Rightarrow> None
         | Some r \<Rightarrow> Some (Normal r)))"

definition timer_stop :: "Timer \<Rightarrow> Timer \<times> event list" where
  "timer_stop t =
     (let (t1, evs) = (case Timer.rafId t of
                         Some i \<Rightarrow> (t\<lparr>Timer.rafId := None\<rparr>, [CancelFrame i])
                       | None \<Rightarrow> (t, []))
      in (t1\<lparr>isPaused := True, Timer.accumulator := Fin 0\<rparr>, evs))"

section \<open>Reading results and event lists\<close>

text \<open>The state an operation leaves behind, whether it returned or threw.\<close>

fun payload :: "'a outcome \<Rightarrow> 'a" where
  "payload (Normal a) = a"
| "payload (Thrown e a) = a"





fun is_stats :: "event \<Rightarrow> bool" where
  "is_stats (Stats st r) = True"
| "is_stats e = False"

definition panic_warning :: event where
  "panic_warning = ConsoleWarn ''Game loop running slowly, skipping frames''"

text \<open>
  An event list of the fixed-update loop of systems/GameLoop.ts: calls of fixed-update
  callbacks and their log entries only, each exception followed by its log entry.
\<close>

definition fixed_events_ok :: "event list \<Rightarrow> bool" where
  "fixed_events_ok evs \<longleftrightarrow>
     (\<forall>x \<in> set evs. (\<exists>r. x = FixedUpdate fixedTimeStep r) \<or>
                     (\<exists>e. x = ConsoleError ''Error in fixed update callback:'' e)) \<and>
     (\<forall>e. FixedUpdate fixedTimeStep (Some e) \<in> set evs \<longrightarrow>
          ConsoleError ''Error in fixed update callback:'' e \<in> set evs)"

text \<open>
  The timing fields of an engine loop are well-formed: a positive frame time and a
  non-negative accumulator, both finite.
\<close>

definition timing_ok :: "'w GameLoop \<Rightarrow> bool" where
  "timing_ok g \<longleftrightarrow>
     isFinite (GameLoop.frameTime g) \<and> Fin 0 < GameLoop.frameTime g \<and>
     isFinite (GameLoop.accumulator g) \<and> Fin 0 \<le> GameLoop.accumulator g"

section \<open>Concrete boxes and trees\<close>

definition box :: "rat \<Rightarrow> rat \<Rightarrow> rat \<Rightarrow> rat \<Rightarrow> BoundingBox" where
  "box a b w h = \<lparr>x = Fin a, y = Fin b, width = Fin w, height = Fin h\<rparr>"

text \<open>\<open>item a b w h n\<close> is the object \<^verbatim>\<open>{x: a, y: b, width: w, height: h, id: n}\<close>.\<close>

definition item :: "rat \<Rightarrow> rat \<Rightarrow> rat \<Rightarrow> rat \<Rightarrow> rat \<Rightarrow> QuadtreeObject" where
  "item a b w h n =
     \<lparr>x = Fin a, y = Fin b, width = Fin w, height = Fin h, obj_id = Some (IdNum (Fin n))\<rparr>"

text \<open>
  Eleven objects for the region \<^verbatim>\<open>{0, 0, 100, 100}\<close>: a small one left of and above the
  centre, a larger one across the centre that overlaps it, and nine in the lower right
  quadrant.
\<close>

definition world :: "QuadtreeObject list" where
  "world = item 45 45 4 4 1 # item 40 40 20 20 2 # replicate 9 (item 60 60 1 1 3)"

text \<open>The tree those eleven insertions build: the root has split once.\<close>

definition world_tree :: Quadtree where
  "world_tree =
     Quadtree (box 0 0 100 100) [item 40 40 20 20 2]
       [Quadtree (box 50 0 50 50) [] [] 1,
        Quadtree (box 0 0 50 50) [item 45 45 4 4 1] [] 1,
        Quadtree (box 0 50 50 50) [] [] 1,
        Quadtree (box 50 50 50 50) (replicate 9 (item 60 60 1 1 3)) [] 1]
       0"

text \<open>
  Loops over the one-element world \<open>unit\<close>: callbacks that do nothing, and an update
  callback that always throws.
\<close>

definition quiet :: "unit GameLoopCallbacks" where
  "quiet = \<lparr>update = (\<lambda>deltaTime w. Normal w), render = (\<lambda>interpolation w. Normal w),
            onPanic = None, onStats = None\<rparr>"

definition broken_update :: "jsnum \<Rightarrow> unit \<Rightarrow> unit outcome" where
  "broken_update deltaTime w = Thrown (Error ''boom'') w"

text \<open>\<^verbatim>\<open>{fps: 1000}\<close>: one update per millisecond.\<close>

definition fast :: GameLoopOptions where
  "fast = \<lparr>opt_fps = Some (Fin 1000), enableStats = None, opt_statsSampleSize = None\<rparr>"

text \<open>\<^verbatim>\<open>new GameLoop(callbacks, {fps: 1000})\<close>, started at time 0 with frame 1 requested.\<close>

definition started :: "unit GameLoopCallbacks \<Rightarrow> unit GameLoop" where
  "started cbs = fst (payload (start (GameLoop_new cbs fast) 0 1))"

text \<open>A systems/GameLoop.ts loop whose only fixed-update callback always throws.\<close>

definition broken_systems_loop :: "unit SystemsGameLoop" where
  "broken_systems_loop = onFixedUpdate SystemsGameLoop_new broken_update"







section \<open>Properties of the collision test\<close>

lemma jsnum_less_irrefl: "\<not> (a::jsnum) < a"
  by (cases a) simp_all

lemma jsnum_less_asym: "(a::jsnum) < b \<Longrightarrow> \<not> b < a"
  by (cases a; cases b) simp_all

lemma jsnum_le_not_less: "(a::jsnum) \<le> b \<Longrightarrow> \<not> b < a"
  by (cases a; cases b) simp_all

lemma jsnum_add_zero: "(a::jsnum) + Fin 0 < b \<longleftrightarrow> a < b" "b < a + Fin 0 \<longleftrightarrow> b < a"
  by (cases a; cases b; simp)+

lemma jsnum_sub_pos: "Fin 0 < (s::jsnum) - b \<longleftrightarrow> b < s"
  by (cases s; cases b; simp)

lemma Math_min_pos: "Fin 0 < Math_min p q \<longleftrightarrow> Fin 0 < p \<and> Fin 0 < q"
  by (cases p; cases q; auto simp: Math_min_def)

lemma Math_min_Fin: "Math_min (Fin a) (Fin b) = Fin (min a b)"
  by (simp add: Math_min_def min_def)


lemma jsnum_add_nonneg_not_less: "Fin 0 \<le> w \<Longrightarrow> \<not> (a::jsnum) + w < a"
  by (cases a; cases w) simp_all

lemma jsnum_add2_nonneg_not_less: "Fin 0 \<le> w \<Longrightarrow> Fin 0 \<le> v \<Longrightarrow> \<not> (a::jsnum) + w + v < a"
  by (cases a; cases w; cases v) simp_all

lemma jsnum_nonpos_not_pos: "(w::jsnum) \<le> Fin 0 \<Longrightarrow> \<not> Fin 0 < w"
  by (cases w) simp_all

lemma hasCollision_detect:
  "hasCollision (detectAABBCollision A B) \<longleftrightarrow>
     x A < x B + width B \<and> x A + width A > x B \<and> y A < y B + height B \<and> y A + height A > y B"
  by (auto simp: detectAABBCollision_def Let_def Math_min_pos jsnum_sub_pos)

lemma overlap_detect:
  "overlap (detectAABBCollision A B) =
     (if hasCollision (detectAABBCollision A B)
      then Some (Math_min (x A + width A - x B) (x B + width B - x A),
                 Math_min (y A + height A - y B) (y B + height B - y A))
      else None)"
  by (simp add: detectAABBCollision_def Let_def)

lemma checkCollision_valid:
  assumes "validateBoundingBox A = Inr ()" "validateBoundingBox B = Inr ()"
  shows "checkCollision A B =
     Inr \<lparr>hasCollision = hasCollision (detectAABBCollision A B),
          overlap = overlap (detectAABBCollision A B)\<rparr>"
  using assms by (simp add: checkCollision_def Let_def overlap_detect)

text \<open>
  C3 (amended).  For boxes that pass validation, \<^verbatim>\<open>checkCollision\<close> reports
  \<open>hasCollision\<close> exactly when the four strict inequalities hold, and then the overlap
  is \<open>min(A.right - B.left, B.right - A.left)\<close> on each axis; two boxes that both have
  zero width, or both zero height, never collide; \<open>{0,0,10,10}\<close> against \<open>{5,5,10,10}\<close>
  collides with overlap \<open>{x: 5, y: 5}\<close>, and against the edge-touching \<open>{10,0,10,10}\<close>
  it does not.
\<close>

theorem checkCollision_strict:
  assumes "validateBoundingBox boxA = Inr ()" and "validateBoundingBox boxB = Inr ()"
  shows "checkCollision boxA boxB =
           Inr \<lparr>hasCollision =
                  (x boxA < x boxB + width boxB \<and> x boxA + width boxA > x boxB \<and>
                   y boxA < y boxB + height boxB \<and> y boxA + height boxA > y boxB),
                overlap =
                  (if x boxA < x boxB + width boxB \<and> x boxA + width boxA > x boxB \<and>
                      y boxA < y boxB + height boxB \<and> y boxA + height boxA > y boxB
                   then Some (Math_min (x boxA + width boxA - x boxB) (x boxB + width boxB - x boxA),
                              Math_min (y boxA + height boxA - y boxB)
                                (y boxB + height boxB - y boxA))
                   else None)\<rparr>
         \<and> (width boxA = Fin 0 \<and> width boxB = Fin 0 \<or> height boxA = Fin 0 \<and> height boxB = Fin 0 \<longrightarrow>
              checkCollision boxA boxB = Inr \<lparr>hasCollision = False, overlap = None\<rparr>)
         \<and> checkCollision (box 0 0 10 10) (box 5 5 10 10) =
              Inr \<lparr>hasCollision = True, overlap = Some (Fin 5, Fin 5)\<rparr>
         \<and> checkCollision (box 0 0 10 10) (box 10 0 10 10) =
              Inr \<lparr>hasCollision = False, overlap = None\<rparr>"
proof -
  let ?ov = "x boxA < x boxB + width boxB \<and> x boxA + width boxA > x boxB \<and>
             y boxA < y boxB + height boxB \<and> y boxA + height boxA > y boxB"
  have gen: "checkCollision boxA boxB =
     Inr \<lparr>hasCollision = ?ov,
          overlap = (if ?ov
             then Some (Math_min (x boxA + width boxA - x boxB) (x boxB + width boxB - x boxA),
                        Math_min (y boxA + height boxA - y boxB) (y boxB + height boxB - y boxA))
             else None)\<rparr>"
    unfolding checkCollision_valid[OF assms] overlap_detect hasCollision_detect ..
  have zero: "width boxA = Fin 0 \<and> width boxB = Fin 0 \<or> height boxA = Fin 0 \<and> height boxB = Fin 0
      \<Longrightarrow> \<not> ?ov"
    by (auto simp: jsnum_add_zero dest: jsnum_less_asym)
  have ex1: "checkCollision (box 0 0 10 10) (box 5 5 10 10) =
              Inr \<lparr>hasCollision = True, overlap = Some (Fin 5, Fin 5)\<rparr>"
    by (simp add: box_def checkCollision_def validateBoundingBox_def detectAABBCollision_def
          Math_min_def Let_def)
  have ex2: "checkCollision (box 0 0 10 10) (box 10 0 10 10) =
              Inr \<lparr>hasCollision = False, overlap = None\<rparr>"
    by (simp add: box_def checkCollision_def validateBoundingBox_def detectAABBCollision_def
          Math_min_def Let_def)
  from zero have "width boxA = Fin 0 \<and> width boxB = Fin 0 \<or> height boxA = Fin 0 \<and> height boxB = Fin 0 \<longrightarrow>
              checkCollision boxA boxB = Inr \<lparr>hasCollision = False, overlap = None\<rparr>"
    unfolding gen by auto
  with gen ex1 ex2 show ?thesis by blast
qed

theorem checkCollision_strict_witness:
  "validateBoundingBox (box 0 0 0 5) = Inr () \<and> validateBoundingBox (box 1 1 0 5) = Inr () \<and>
   width (box 0 0 0 5) = Fin 0 \<and> width (box 1 1 0 5) = Fin 0 \<and>
   checkCollision (box 0 0 0 5) (box 1 1 0 5) = Inr \<lparr>hasCollision = False, overlap = None\<rparr>"
proof -
  have a: "validateBoundingBox (box 0 0 0 5) = Inr ()"
    by (simp add: box_def validateBoundingBox_def)
  have b: "validateBoundingBox (box 1 1 0 5) = Inr ()"
    by (simp add: box_def validateBoundingBox_def)
  have w: "width (box 0 0 0 5) = Fin 0 \<and> width (box 1 1 0 5) = Fin 0"
    by (simp add: box_def)
  from checkCollision_strict[OF a b] w a b show ?thesis by blast
qed

text \<open>
  C3 as stated fails: a box of zero width and height lying strictly inside another box
  is reported as colliding with it.
\<close>

theorem zero_dimension_box_collides:
  "checkCollision (box 5 5 0 0) (box 0 0 10 10) =
     Inr \<lparr>hasCollision = True, overlap = Some (Fin 5, Fin 5)\<rparr>"
  by (simp add: box_def checkCollision_def validateBoundingBox_def detectAABBCollision_def
        Math_min_def Let_def)

text \<open>
  C10.  Two boxes of non-negative size that touch only along an edge or at a corner
  (one ends on an axis exactly where the other begins, their extents on the other axis
  meeting) collide for \<^verbatim>\<open>Quadtree.checkCollision\<close> and do not collide for
  \<^verbatim>\<open>CollisionSystem.checkCollision\<close>.
\<close>

theorem touching_boxes_opposite_verdicts:
  assumes "Fin 0 \<le> width objA" "Fin 0 \<le> height objA" "Fin 0 \<le> width objB" "Fin 0 \<le> height objB"
    and "(x objA + width objA = x objB \<or> x objB + width objB = x objA) \<and>
           y objA \<le> y objB + height objB \<and> y objB \<le> y objA + height objA
         \<or> (y objA + height objA = y objB \<or> y objB + height objB = y objA) \<and>
           x objA \<le> x objB + width objB \<and> x objB \<le> x objA + width objA"
  shows "Quadtree_checkCollision objA objB = True \<and>
         checkCollision objA objB = Inr \<lparr>hasCollision = False, overlap = None\<rparr>"
proof -
  have va: "validateBoundingBox objA = Inr ()" "validateBoundingBox objB = Inr ()"
    using assms(1-4) by (auto simp: validateBoundingBox_def dest: jsnum_le_not_less)
  have q: "Quadtree_checkCollision objA objB"
    unfolding Quadtree_checkCollision_def
    using assms jsnum_add_nonneg_not_less jsnum_add2_nonneg_not_less jsnum_le_not_less jsnum_less_irrefl
    by metis
  have "\<not> hasCollision (detectAABBCollision objA objB)"
    unfolding hasCollision_detect
    using assms(5) jsnum_less_irrefl by metis
  with q show ?thesis
    by (simp add: checkCollision_valid[OF va] overlap_detect)
qed

theorem touching_boxes_opposite_verdicts_witness:
  "Fin 0 \<le> width (box 0 0 10 10) \<and> Fin 0 \<le> height (box 0 0 10 10) \<and>
   Fin 0 \<le> width (box 10 0 10 10) \<and> Fin 0 \<le> height (box 10 0 10 10) \<and>
   x (box 0 0 10 10) + width (box 0 0 10 10) = x (box 10 0 10 10) \<and>
   y (box 0 0 10 10) \<le> y (box 10 0 10 10) + height (box 10 0 10 10) \<and>
   y (box 10 0 10 10) \<le> y (box 0 0 10 10) + height (box 0 0 10 10) \<and>
   Quadtree_checkCollision (box 0 0 10 10) (box 10 0 10 10) = True \<and>
   checkCollision (box 0 0 10 10) (box 10 0 10 10) = Inr \<lparr>hasCollision = False, overlap = None\<rparr>"
proof -
  have h: "Fin 0 \<le> width (box 0 0 10 10)" "Fin 0 \<le> height (box 0 0 10 10)"
    "Fin 0 \<le> width (box 10 0 10 10)" "Fin 0 \<le> height (box 10 0 10 10)"
    by (simp_all add: box_def)
  have t: "x (box 0 0 10 10) + width (box 0 0 10 10) = x (box 10 0 10 10) \<and>
      y (box 0 0 10 10) \<le> y (box 10 0 10 10) + height (box 10 0 10 10) \<and>
      y (box 10 0 10 10) \<le> y (box 0 0 10 10) + height (box 0 0 10 10)"
    by (simp add: box_def)
  from touching_boxes_opposite_verdicts[OF h, of ] t h show ?thesis by blast
qed

section \<open>Properties of the quadtree\<close>

lemmas quadtree_eval =
  box_def item_def getIndices_def split_def Let_def MAX_OBJECTS_def MAX_LEVELS_def MIN_SIZE_def
  Quadtree_new_def isValidBoundary_def

lemma world_tree_built:
  "Quadtree_new (box 0 0 100 100) 0 = Inr (Quadtree (box 0 0 100 100) [] [] 0) \<and>
   insert_all (Quadtree (box 0 0 100 100) [] [] 0) world = Inr world_tree"
  by (simp add: quadtree_eval world_def world_tree_def numeral_eq_Suc)

lemma world_boxes_overlap:
  "checkCollision (item 45 45 4 4 1) (item 40 40 20 20 2) =
     Inr \<lparr>hasCollision = True, overlap = Some (Fin 9, Fin 9)\<rparr>"
  by (simp add: item_def checkCollision_def validateBoundingBox_def detectAABBCollision_def
        Math_min_def Let_def)

text \<open>
  C1 fails on the code.  After the eleven objects of \<open>world\<close> are inserted, the object
  \<open>{40,40,20,20}\<close> overlaps the inserted object \<open>{45,45,4,4}\<close>, but the query with it
  returns the root's own list only: a query box that lies across a midline gets no
  index from \<^verbatim>\<open>getIndices\<close>, so no child is searched.
\<close>

theorem retrieve_misses_overlapping_item:
  "insert_all (Quadtree (box 0 0 100 100) [] [] 0) world = Inr world_tree \<and>
   checkCollision (item 45 45 4 4 1) (item 40 40 20 20 2) =
     Inr \<lparr>hasCollision = True, overlap = Some (Fin 9, Fin 9)\<rparr> \<and>
   retrieve world_tree (item 40 40 20 20 2) = Inr [item 40 40 20 20 2] \<and>
   retrieve world_tree (item 45 45 4 4 1) = Inr [item 40 40 20 20 2, item 45 45 4 4 1]"
proof -
  have "retrieve world_tree (item 40 40 20 20 2) = Inr [item 40 40 20 20 2]"
    by (simp add: quadtree_eval world_tree_def)
  moreover have
    "retrieve world_tree (item 45 45 4 4 1) = Inr [item 40 40 20 20 2, item 45 45 4 4 1]"
    by (simp add: quadtree_eval world_tree_def)
  ultimately show ?thesis using world_tree_built world_boxes_overlap by simp
qed

text \<open>
  C2 fails on the code.  Inserting \<open>{45,45,10,10}\<close>, which lies across both midlines,
  into the split tree returns the tree unchanged: \<^verbatim>\<open>getIndices\<close> is empty, the loop over
  the children does nothing, and the object is stored nowhere.
\<close>

theorem insert_drops_straddling_item:
  "insert_all (Quadtree (box 0 0 100 100) [] [] 0) world = Inr world_tree \<and>
   getIndices world_tree (item 45 45 10 10 4) = [] \<and>
   insert_object world_tree (item 45 45 10 10 4) = Inr world_tree"
proof -
  have "getIndices world_tree (item 45 45 10 10 4) = []"
    by (simp add: quadtree_eval world_tree_def)
  moreover have "insert_object world_tree (item 45 45 10 10 4) = Inr world_tree"
    by (simp add: quadtree_eval world_tree_def)
  ultimately show ?thesis using world_tree_built by simp
qed

text \<open>
  C9 fails on the code.  The node \<open>{0,0,20,20}\<close> has half-width 10, below \<open>MIN_SIZE\<close>.
  It takes ten objects; the eleventh insertion skips the split and then calls
  \<^verbatim>\<open>insert\<close> on a child that does not exist, which raises a \<^verbatim>\<open>TypeError\<close>.
\<close>

theorem insert_fails_below_min_size:
  "Quadtree_new (box 0 0 20 20) 0 = Inr (Quadtree (box 0 0 20 20) [] [] 0) \<and>
   insert_all (Quadtree (box 0 0 20 20) [] [] 0) (replicate 10 (item 1 1 2 2 7)) =
     Inr (Quadtree (box 0 0 20 20) (replicate 10 (item 1 1 2 2 7)) [] 0) \<and>
   split (Quadtree (box 0 0 20 20) (replicate 11 (item 1 1 2 2 7)) [] 0) =
     Inr (Quadtree (box 0 0 20 20) (replicate 11 (item 1 1 2 2 7)) [] 0) \<and>
   insert_object (Quadtree (box 0 0 20 20) (replicate 10 (item 1 1 2 2 7)) [] 0) (item 1 1 2 2 7) =
     Inl TypeError"
proof -
  have "Quadtree_new (box 0 0 20 20) 0 = Inr (Quadtree (box 0 0 20 20) [] [] 0)"
    by (simp add: quadtree_eval)
  moreover have
    "insert_all (Quadtree (box 0 0 20 20) [] [] 0) (replicate 10 (item 1 1 2 2 7)) =
       Inr (Quadtree (box 0 0 20 20) (replicate 10 (item 1 1 2 2 7)) [] 0)"
    by (simp add: quadtree_eval numeral_eq_Suc)
  moreover have
    "split (Quadtree (box 0 0 20 20) (replicate 11 (item 1 1 2 2 7)) [] 0) =
       Inr (Quadtree (box 0 0 20 20) (replicate 11 (item 1 1 2 2 7)) [] 0)"
    by (simp add: quadtree_eval)
  moreover have
    "insert_object (Quadtree (box 0 0 20 20) (replicate 10 (item 1 1 2 2 7)) [] 0) (item 1 1 2 2 7) =
       Inl TypeError"
    by (simp add: quadtree_eval numeral_eq_Suc)
  ultimately show ?thesis by simp
qed

subsection \<open>Validation\<close>

lemma validateBoundingBox_Inr:
  "validateBoundingBox b = Inr () \<longleftrightarrow> \<not> (width b < Fin 0 \<or> height b < Fin 0)"
  by (simp add: validateBoundingBox_def)

lemma validateBoundingBox_Inl:
  "validateBoundingBox b = Inl e \<longleftrightarrow>
     (width b < Fin 0 \<or> height b < Fin 0) \<and>
     e = Error ''Bounding box dimensions cannot be negative''"
  by (auto simp: validateBoundingBox_def)

lemma checkCollision_rejects_iff:
  "checkCollision boxA boxB = Inl (Error ''Bounding box dimensions cannot be negative'') \<longleftrightarrow>
     width boxA < Fin 0 \<or> height boxA < Fin 0 \<or> width boxB < Fin 0 \<or> height boxB < Fin 0"
  by (auto simp: checkCollision_def validateBoundingBox_def Let_def)

lemma checkCollision_accepts_iff:
  "(\<exists>r. checkCollision boxA boxB = Inr r) \<longleftrightarrow>
     \<not> (width boxA < Fin 0 \<or> height boxA < Fin 0 \<or> width boxB < Fin 0 \<or> height boxB < Fin 0)"
  by (auto simp: checkCollision_def validateBoundingBox_def Let_def)

lemma Quadtree_new_rejects:
  assumes "width b \<le> Fin 0 \<or> height b \<le> Fin 0 \<or> \<not> isFinite (x b) \<or> \<not> isFinite (y b)"
  shows "Quadtree_new b l = Inl (Error ''Invalid boundary provided to Quadtree'')"
  using assms by (auto simp: Quadtree_new_def isValidBoundary_def dest: jsnum_nonpos_not_pos)

lemma insert_leaf_with_room:
  assumes "nodes t = []" and "length (objects t) < MAX_OBJECTS"
  shows "insert_object t object = Inr (Quadtree (boundary t) (objects t @ [object]) [] (level t))"
  using assms by (simp add: Let_def)

lemma retrieve_leaf: "nodes t = [] \<Longrightarrow> retrieve t object = Inr (objects t)"
  by (simp add: Let_def)

text \<open>
  C8 (amended).  The constructor rejects a boundary whose width or height is not
  positive or whose \<open>x\<close> or \<open>y\<close> is not finite.  \<^verbatim>\<open>checkCollision\<close> rejects a pair of
  boxes exactly when a width or height is negative, so it accepts zero sizes and
  non-finite coordinates.  \<^verbatim>\<open>insert\<close> and \<^verbatim>\<open>retrieve\<close> do not validate their argument:
  a leaf with room left stores any object, and a leaf answers any query with its list.
\<close>

theorem validation_where_it_happens:
  "(width b \<le> Fin 0 \<or> height b \<le> Fin 0 \<or> \<not> isFinite (x b) \<or> \<not> isFinite (y b) \<longrightarrow>
      Quadtree_new b l = Inl (Error ''Invalid boundary provided to Quadtree''))
   \<and> ((checkCollision boxA boxB = Inl (Error ''Bounding box dimensions cannot be negative''))
        = (width boxA < Fin 0 \<or> height boxA < Fin 0 \<or> width boxB < Fin 0 \<or> height boxB < Fin 0))
   \<and> ((\<exists>r. checkCollision boxA boxB = Inr r)
        = (\<not> (width boxA < Fin 0 \<or> height boxA < Fin 0 \<or> width boxB < Fin 0 \<or>
               height boxB < Fin 0)))
   \<and> (nodes t = [] \<and> length (objects t) < MAX_OBJECTS \<longrightarrow>
        insert_object t object = Inr (Quadtree (boundary t) (objects t @ [object]) [] (level t)))
   \<and> (nodes t = [] \<longrightarrow> retrieve t query = Inr (objects t))"
  using Quadtree_new_rejects[of b l] checkCollision_rejects_iff[of boxA boxB]
    checkCollision_accepts_iff[of boxA boxB] insert_leaf_with_room[of t object]
    retrieve_leaf[of t query]
  by blast

theorem validation_where_it_happens_witness:
  "width (box 0 0 0 10) \<le> Fin 0 \<and>
   Quadtree_new (box 0 0 0 10) 0 = Inl (Error ''Invalid boundary provided to Quadtree'') \<and>
   nodes (Quadtree (box 0 0 100 100) [] [] 0) = [] \<and>
   length (objects (Quadtree (box 0 0 100 100) [] [] 0)) < MAX_OBJECTS \<and>
   insert_object (Quadtree (box 0 0 100 100) [] [] 0) (item 1 1 (- 2) 0 1) =
     Inr (Quadtree (box 0 0 100 100) [item 1 1 (- 2) 0 1] [] 0) \<and>
   retrieve (Quadtree (box 0 0 100 100) [] [] 0) (item 1 1 (- 2) 0 1) = Inr []"
proof -
  have w: "width (box 0 0 0 10) \<le> Fin 0"
    by (simp add: box_def)
  have n: "nodes (Quadtree (box 0 0 100 100) [] [] 0) = [] \<and>
           length (objects (Quadtree (box 0 0 100 100) [] [] 0)) < MAX_OBJECTS"
    by (simp add: MAX_OBJECTS_def)
  from validation_where_it_happens
         [of "box 0 0 0 10" 0 "box 0 0 1 1" "box 0 0 1 1" "Quadtree (box 0 0 100 100) [] [] 0"
             "item 1 1 (- 2) 0 1" "item 1 1 (- 2) 0 1"]
       w n
  show ?thesis by simp
qed

text \<open>
  C8 as stated fails: \<^verbatim>\<open>checkCollision\<close> accepts a box of zero width and height, and
  \<^verbatim>\<open>insert\<close> stores an object of negative width and zero height.
\<close>

theorem degenerate_boxes_accepted:
  "checkCollision (box 0 0 0 0) (box 0 0 10 10) = Inr \<lparr>hasCollision = False, overlap = None\<rparr> \<and>
   insert_object (Quadtree (box 0 0 100 100) [] [] 0) (item 1 1 (- 2) 0 1) =
     Inr (Quadtree (box 0 0 100 100) [item 1 1 (- 2) 0 1] [] 0)"
  by (simp add: box_def item_def checkCollision_def validateBoundingBox_def
        detectAABBCollision_def Math_min_def Let_def MAX_OBJECTS_def)

section \<open>Properties of engine/GameLoop.ts\<close>

lemma stop_fields:
  "fst (stop g) = g\<lparr>running := False\<rparr>"
  "snd (stop g) = (if running g then [CancelFrame (GameLoop.rafId g)] else [])"
  by (auto simp: stop_def)

lemma drain_Inr:
  "drain g w n evs = Inr (g', w', n', evs') \<Longrightarrow>
     n \<le> n' \<and> (n \<le> MAX_UPDATES_PER_FRAME \<longrightarrow> n' \<le> MAX_UPDATES_PER_FRAME) \<and>
     evs' = evs @ replicate (n' - n) (Update (GameLoop.frameTime g) None) \<and>
     g' = g\<lparr>GameLoop.accumulator := GameLoop.accumulator g'\<rparr> \<and>
     (n' < MAX_UPDATES_PER_FRAME \<longrightarrow> \<not> GameLoop.frameTime g \<le> GameLoop.accumulator g')"
proof (induction g w n evs rule: drain.induct)
  case (1 g w n evs)
  show ?case
  proof (cases "GameLoop.frameTime g \<le> GameLoop.accumulator g \<and> n < MAX_UPDATES_PER_FRAME")
    case False
    with "1.prems" have "g' = g" "w' = w" "n' = n" "evs' = evs"
      by (simp_all add: drain.simps)
    with False show ?thesis by auto
  next
    case True
    show ?thesis
    proof (cases "update (callbacks g) (GameLoop.frameTime g) w")
      case (Thrown e w1)
      with True "1.prems" show ?thesis
        by (simp add: drain.simps split: prod.splits)
    next
      case (Normal w1)
      let ?g1 = "g\<lparr>GameLoop.accumulator := GameLoop.accumulator g - GameLoop.frameTime g\<rparr>"
      from True Normal "1.prems"
      have rec: "drain ?g1 w1 (n + 1) (evs @ [Update (GameLoop.frameTime g) None]) =
                   Inr (g', w', n', evs')"
        by (simp add: drain.simps)
      from "1.IH"[OF True Normal rec]
      have ih: "n + 1 \<le> n'"
        "n + 1 \<le> MAX_UPDATES_PER_FRAME \<longrightarrow> n' \<le> MAX_UPDATES_PER_FRAME"
        "evs' = (evs @ [Update (GameLoop.frameTime g) None]) @
                  replicate (n' - (n + 1)) (Update (GameLoop.frameTime ?g1) None)"
        "g' = ?g1\<lparr>GameLoop.accumulator := GameLoop.accumulator g'\<rparr>"
        "n' < MAX_UPDATES_PER_FRAME \<longrightarrow> \<not> GameLoop.frameTime ?g1 \<le> GameLoop.accumulator g'"
        by simp_all
      have "replicate (n' - n) (Update (GameLoop.frameTime g) None) =
              Update (GameLoop.frameTime g) None #
              replicate (n' - (n + 1)) (Update (GameLoop.frameTime g) None)"
        using ih(1) by (cases "n' - n") (simp_all add: Suc_diff_Suc)
      with ih True show ?thesis by auto
    qed
  qed
qed

lemma drain_Inl:
  "drain g w n evs = Inl (g', w', evs') \<Longrightarrow>
     (\<exists>k e. n + k < MAX_UPDATES_PER_FRAME \<and>
        evs' = evs @ replicate k (Update (GameLoop.frameTime g) None) @
               [Update (GameLoop.frameTime g) (Some e), ConsoleError ''Error in update callback:'' e] @
               (if running g then [CancelFrame (GameLoop.rafId g)] else [])) \<and>
     g' = g\<lparr>GameLoop.accumulator := GameLoop.accumulator g', running := False\<rparr>"
proof (induction g w n evs rule: drain.induct)
  case (1 g w n evs)
  show ?case
  proof (cases "GameLoop.frameTime g \<le> GameLoop.accumulator g \<and> n < MAX_UPDATES_PER_FRAME")
    case False
    with "1.prems" show ?thesis by (simp add: drain.simps)
  next
    case True
    show ?thesis
    proof (cases "update (callbacks g) (GameLoop.frameTime g) w")
      case (Thrown e w1)
      with True "1.prems"
      have "g' = fst (stop g)" "evs' = evs @ [Update (GameLoop.frameTime g) (Some e),
                 ConsoleError ''Error in update callback:'' e] @ snd (stop g)"
        by (auto simp: drain.simps split: prod.splits)
      then have "evs' = evs @ replicate 0 (Update (GameLoop.frameTime g) None) @
               [Update (GameLoop.frameTime g) (Some e), ConsoleError ''Error in update callback:'' e] @
               (if running g then [CancelFrame (GameLoop.rafId g)] else [])"
        and "g' = g\<lparr>GameLoop.accumulator := GameLoop.accumulator g', running := False\<rparr>"
        by (simp_all add: stop_fields)
      with True show ?thesis by (metis add.right_neutral)
    next
      case (Normal w1)
      let ?g1 = "g\<lparr>GameLoop.accumulator := GameLoop.accumulator g - GameLoop.frameTime g\<rparr>"
      from True Normal "1.prems"
      have rec: "drain ?g1 w1 (n + 1) (evs @ [Update (GameLoop.frameTime g) None]) =
                   Inl (g', w', evs')"
        by (simp add: drain.simps)
      from "1.IH"[OF True Normal rec] obtain k e where
        k: "n + 1 + k < MAX_UPDATES_PER_FRAME"
        and ev: "evs' = (evs @ [Update (GameLoop.frameTime g) None]) @
               replicate k (Update (GameLoop.frameTime g) None) @
               [Update (GameLoop.frameTime g) (Some e), ConsoleError ''Error in update callback:'' e] @
               (if running g then [CancelFrame (GameLoop.rafId g)] else [])"
        and g': "g' = ?g1\<lparr>GameLoop.accumulator := GameLoop.accumulator g', running := False\<rparr>"
        by auto
      have "n + Suc k < MAX_UPDATES_PER_FRAME" using k by simp
      moreover have "evs' = evs @ replicate (Suc k) (Update (GameLoop.frameTime g) None) @
               [Update (GameLoop.frameTime g) (Some e), ConsoleError ''Error in update callback:'' e] @
               (if running g then [CancelFrame (GameLoop.rafId g)] else [])"
        using ev by simp
      moreover have "g' = g\<lparr>GameLoop.accumulator := GameLoop.accumulator g', running := False\<rparr>"
        using g' by simp
      ultimately show ?thesis by blast
    qed
  qed
qed


lemma drain_Inr_finite:
  "drain g w n evs = Inr (g', w', n', evs') \<Longrightarrow>
   GameLoop.frameTime g = Fin f \<Longrightarrow> 0 < f \<Longrightarrow> GameLoop.accumulator g = Fin a \<Longrightarrow> 0 \<le> a \<Longrightarrow>
     \<exists>a'. GameLoop.accumulator g' = Fin a' \<and> 0 \<le> a'"
proof (induction g w n evs arbitrary: a rule: drain.induct)
  case (1 g w n evs)
  show ?case
  proof (cases "GameLoop.frameTime g \<le> GameLoop.accumulator g \<and> n < MAX_UPDATES_PER_FRAME")
    case False
    then have "drain g w n evs = Inr (g, w, n, evs)"
      by (subst drain.simps) auto
    with "1.prems"(1) have "g' = g" by simp
    with "1.prems" show ?thesis by simp
  next
    case True
    show ?thesis
    proof (cases "update (callbacks g) (GameLoop.frameTime g) w")
      case (Thrown e w1)
      with True have "\<exists>s. drain g w n evs = Inl s"
        by (subst drain.simps) (auto split: prod.splits)
      with "1.prems"(1) show ?thesis by auto
    next
      case (Normal w1)
      let ?g1 = "g\<lparr>GameLoop.accumulator := GameLoop.accumulator g - GameLoop.frameTime g\<rparr>"
      from True Normal
      have "drain g w n evs =
              drain ?g1 w1 (n + 1) (evs @ [Update (GameLoop.frameTime g) None])"
        by (subst drain.simps) auto
      with "1.prems"(1)
      have rec: "drain ?g1 w1 (n + 1) (evs @ [Update (GameLoop.frameTime g) None]) =
                   Inr (g', w', n', evs')"
        by simp
      have acc1: "GameLoop.accumulator ?g1 = Fin (a - f)" "0 \<le> a - f"
        using True "1.prems" by simp_all
      have ft1: "GameLoop.frameTime ?g1 = Fin f" using "1.prems" by simp
      from "1.IH"[OF True Normal rec ft1 \<open>0 < f\<close> acc1] show ?thesis .
    qed
  qed
qed

lemma drain_Inr_acc:
  "drain g w n evs = Inr (g', w', n', evs') \<Longrightarrow>
   GameLoop.frameTime g = Fin f \<Longrightarrow> GameLoop.accumulator g = Fin a \<Longrightarrow>
     GameLoop.accumulator g' = Fin (a - of_nat (n' - n) * f)"
proof (induction g w n evs arbitrary: a rule: drain.induct)
  case (1 g w n evs)
  show ?case
  proof (cases "GameLoop.frameTime g \<le> GameLoop.accumulator g \<and> n < MAX_UPDATES_PER_FRAME")
    case False
    then have "drain g w n evs = Inr (g, w, n, evs)"
      by (subst drain.simps) auto
    with "1.prems"(1) have "g' = g" "n' = n" by simp_all
    with "1.prems" show ?thesis by simp
  next
    case True
    show ?thesis
    proof (cases "update (callbacks g) (GameLoop.frameTime g) w")
      case (Thrown e w1)
      with True have "\<exists>s. drain g w n evs = Inl s"
        by (subst drain.simps) (auto split: prod.splits)
      with "1.prems"(1) show ?thesis by auto
    next
      case (Normal w1)
      let ?g1 = "g\<lparr>GameLoop.accumulator := GameLoop.accumulator g - GameLoop.frameTime g\<rparr>"
      from True Normal
      have "drain g w n evs =
              drain ?g1 w1 (n + 1) (evs @ [Update (GameLoop.frameTime g) None])"
        by (subst drain.simps) auto
      with "1.prems"(1)
      have rec: "drain ?g1 w1 (n + 1) (evs @ [Update (GameLoop.frameTime g) None]) =
                   Inr (g', w', n', evs')"
        by simp
      have acc1: "GameLoop.accumulator ?g1 = Fin (a - f)" using "1.prems" by simp
      have ft1: "GameLoop.frameTime ?g1 = Fin f" using "1.prems" by simp
      from drain_Inr[OF rec] have le: "n + 1 \<le> n'" by simp
      then have "of_nat (n' - n) = (of_nat (n' - (n + 1)) :: rat) + 1"
        by (simp add: of_nat_diff)
      with "1.IH"[OF True Normal rec ft1 acc1] show ?thesis by (simp add: algebra_simps)
    qed
  qed
qed

lemma updateStats_shape:
  "updateStats g w d = r \<Longrightarrow>
     (\<exists>g' w' e st. r = Thrown e (g', w', [Stats st (Some e)])) \<or>
     (\<exists>g' w' sevs. r = Normal (g', w', sevs) \<and> (\<forall>e \<in> set sevs. is_stats e) \<and>
        g' = g\<lparr>frameTimeHistory := frameTimeHistory g', stats := stats g'\<rparr>)"
  by (auto simp: updateStats_def Let_def split: option.splits outcome.splits)

lemma handlePanic_shape:
  "handlePanic g w = r \<Longrightarrow>
     (\<exists>w' e. r = Thrown e (w', [Panic (Some e)])) \<or>
     (\<exists>w' pevs. r = Normal (w', pevs) \<and>
        ConsoleWarn ''Game loop running slowly, skipping frames'' \<in> set pevs \<and>
        (onPanic (callbacks g) \<noteq> None \<longrightarrow> Panic None \<in> set pevs) \<and>
        (\<forall>e \<in> set pevs. e = Panic None \<or> e = ConsoleWarn ''Game loop running slowly, skipping frames''))"
  by (auto simp: handlePanic_def split: option.splits outcome.splits)



lemma finish_frame_shape:
  assumes "finish_frame g w n evs fid = r"
  obtains
    (panic_threw) e w' where
      "MAX_UPDATES_PER_FRAME \<le> n" "r = Thrown e (g, w', evs @ [Panic (Some e)])"
  | (render_threw) e w' pevs g1 where
      "r = Normal (g1\<lparr>running := False\<rparr>, w',
             evs @ pevs @ [Render (js_div (GameLoop.accumulator g1) (GameLoop.frameTime g)) (Some e),
                           ConsoleError ''Error in render callback:'' e] @
               (if running g then [CancelFrame (GameLoop.rafId g)] else []))"
      "if MAX_UPDATES_PER_FRAME \<le> n
       then g1 = g\<lparr>GameLoop.accumulator := Fin 0\<rparr> \<and> panic_warning \<in> set pevs \<and>
            (onPanic (callbacks g) \<noteq> None \<longrightarrow> Panic None \<in> set pevs)
       else g1 = g \<and> pevs = []"
      "\<forall>e \<in> set pevs. e = Panic None \<or> e = panic_warning"
  | (rendered) w' pevs g1 where
      "r = Normal (g1\<lparr>GameLoop.rafId := fid\<rparr>, w',
             evs @ pevs @ [Render (js_div (GameLoop.accumulator g1) (GameLoop.frameTime g)) None,
                           RequestFrame fid])"
      "if MAX_UPDATES_PER_FRAME \<le> n
       then g1 = g\<lparr>GameLoop.accumulator := Fin 0\<rparr> \<and> panic_warning \<in> set pevs \<and>
            (onPanic (callbacks g) \<noteq> None \<longrightarrow> Panic None \<in> set pevs)
       else g1 = g \<and> pevs = []"
      "\<forall>e \<in> set pevs. e = Panic None \<or> e = panic_warning"
proof (cases "MAX_UPDATES_PER_FRAME \<le> n")
  case False
  show ?thesis
  proof (cases "render (callbacks g) (js_div (GameLoop.accumulator g) (GameLoop.frameTime g)) w")
    case (Normal w2)
    with False assms show ?thesis
      by (intro rendered[of g w2 "[]"]) (auto simp: finish_frame_def Let_def)
  next
    case (Thrown e w2)
    with False assms show ?thesis
      by (intro render_threw[of g w2 "[]" e]) (auto simp: finish_frame_def Let_def stop_def)
  qed
next
  case True
  show ?thesis
  proof (cases "handlePanic g w")
    case (Thrown e p)
    then obtain w' where "handlePanic g w = Thrown e (w', [Panic (Some e)])"
      by (auto simp: handlePanic_def split: option.splits outcome.splits)
    with True assms show ?thesis
      by (intro panic_threw[of e w']) (auto simp: finish_frame_def)
  next
    case (Normal p)
    obtain w1 pevs where p: "p = (w1, pevs)" by (cases p)
    with Normal have pe: "panic_warning \<in> set pevs"
      "onPanic (callbacks g) \<noteq> None \<longrightarrow> Panic None \<in> set pevs"
      "\<forall>e \<in> set pevs. e = Panic None \<or> e = panic_warning"
      by (auto simp: handlePanic_def panic_warning_def split: option.splits outcome.splits)
    let ?g1 = "g\<lparr>GameLoop.accumulator := Fin 0\<rparr>"
    show ?thesis
    proof (cases "render (callbacks g) (js_div (Fin 0) (GameLoop.frameTime g)) w1")
      case w2: (Normal w2)
      with True assms Normal p pe show ?thesis
        by (intro rendered[of ?g1 w2 pevs]) (auto simp: finish_frame_def Let_def)
    next
      case w2: (Thrown e w2)
      with True assms Normal p pe show ?thesis
        by (intro render_threw[of ?g1 w2 pevs e]) (auto simp: finish_frame_def Let_def stop_def)
    qed
  qed
qed


lemma loop_shape:
  fixes g :: "'w GameLoop"
  assumes run: "running g"
  obtains
    (stats_threw) e g' w' st where
      "loop g w t fid = Thrown e (g', w', [Stats st (Some e)])"
  | (update_threw) g' w' sevs k e where
      "loop g w t fid =
         Normal (g', w', sevs @ replicate k (Update (GameLoop.frameTime g) None) @
                   [Update (GameLoop.frameTime g) (Some e),
                    ConsoleError ''Error in update callback:'' e,
                    CancelFrame (GameLoop.rafId g)])"
      "\<forall>x \<in> set sevs. is_stats x" "k < MAX_UPDATES_PER_FRAME" "\<not> running g'"
  | (panic_threw) g' w' sevs e where
      "loop g w t fid =
         Thrown e (g', w', sevs @ replicate MAX_UPDATES_PER_FRAME (Update (GameLoop.frameTime g) None) @
                     [Panic (Some e)])"
      "\<forall>x \<in> set sevs. is_stats x"
      "\<And>f a l. GameLoop.frameTime g = Fin f \<Longrightarrow> GameLoop.accumulator g = Fin a \<Longrightarrow>
         GameLoop.lastTime g = Fin l \<Longrightarrow>
         GameLoop.accumulator g' = Fin (a + (t - l) - of_nat MAX_UPDATES_PER_FRAME * f)"
  | (render_threw) g' w' sevs n pevs e where
      "loop g w t fid =
         Normal (g', w', sevs @ replicate n (Update (GameLoop.frameTime g) None) @ pevs @
                   [Render (js_div (GameLoop.accumulator g') (GameLoop.frameTime g)) (Some e),
                    ConsoleError ''Error in render callback:'' e,
                    CancelFrame (GameLoop.rafId g)])"
      "\<forall>x \<in> set sevs. is_stats x" "n \<le> MAX_UPDATES_PER_FRAME" "\<not> running g'"
      "GameLoop.frameTime g' = GameLoop.frameTime g"
      "n = MAX_UPDATES_PER_FRAME \<longrightarrow> GameLoop.accumulator g' = Fin 0 \<and> panic_warning \<in> set pevs \<and>
         (onPanic (callbacks g) \<noteq> None \<longrightarrow> Panic None \<in> set pevs)"
      "n < MAX_UPDATES_PER_FRAME \<longrightarrow> pevs = [] \<and>
         \<not> GameLoop.frameTime g \<le> GameLoop.accumulator g'"
      "\<forall>x \<in> set pevs. x = Panic None \<or> x = panic_warning"
      "\<And>f a l. GameLoop.frameTime g = Fin f \<Longrightarrow> 0 < f \<Longrightarrow> GameLoop.accumulator g = Fin a \<Longrightarrow>
         0 \<le> a \<Longrightarrow> GameLoop.lastTime g = Fin l \<Longrightarrow> l \<le> t \<Longrightarrow>
         \<exists>a'. GameLoop.accumulator g' = Fin a' \<and> 0 \<le> a'"
  | (rendered) g' w' sevs n pevs where
      "loop g w t fid =
         Normal (g', w', sevs @ replicate n (Update (GameLoop.frameTime g) None) @ pevs @
                   [Render (js_div (GameLoop.accumulator g') (GameLoop.frameTime g)) None,
                    RequestFrame fid])"
      "\<forall>x \<in> set sevs. is_stats x" "n \<le> MAX_UPDATES_PER_FRAME" "running g'"
      "GameLoop.rafId g' = fid"
      "GameLoop.frameTime g' = GameLoop.frameTime g"
      "n = MAX_UPDATES_PER_FRAME \<longrightarrow> GameLoop.accumulator g' = Fin 0 \<and> panic_warning \<in> set pevs \<and>
         (onPanic (callbacks g) \<noteq> None \<longrightarrow> Panic None \<in> set pevs)"
      "n < MAX_UPDATES_PER_FRAME \<longrightarrow> pevs = [] \<and>
         \<not> GameLoop.frameTime g \<le> GameLoop.accumulator g'"
      "\<forall>x \<in> set pevs. x = Panic None \<or> x = panic_warning"
      "\<And>f a l. GameLoop.frameTime g = Fin f \<Longrightarrow> 0 < f \<Longrightarrow> GameLoop.accumulator g = Fin a \<Longrightarrow>
         0 \<le> a \<Longrightarrow> GameLoop.lastTime g = Fin l \<Longrightarrow> l \<le> t \<Longrightarrow>
         \<exists>a'. GameLoop.accumulator g' = Fin a' \<and> 0 \<le> a'"
proof -
  define d where "d = Fin t - GameLoop.lastTime g"
  define g1 where "g1 = g\<lparr>GameLoop.lastTime := Fin t\<rparr>"
  define S where "S = (if statsEnabled g1 then updateStats g1 w d else Normal (g1, w, []))"
  have loop_eq: "loop g w t fid =
      (case S of
         Thrown e s \<Rightarrow> Thrown e s
       | Normal (g2, w2, evs2) \<Rightarrow>
           (case drain (g2\<lparr>GameLoop.accumulator := GameLoop.accumulator g2 + d\<rparr>) w2 0 evs2 of
              Inl s \<Rightarrow> Normal s
            | Inr (g3, w3, n, evs3) \<Rightarrow> finish_frame g3 w3 n evs3 fid))"
    unfolding loop_def Let_def S_def g1_def d_def using run by simp
  have S_cases: "(\<exists>g' w' e st. S = Thrown e (g', w', [Stats st (Some e)])) \<or>
     (\<exists>g2 w2 sevs. S = Normal (g2, w2, sevs) \<and> (\<forall>x \<in> set sevs. is_stats x) \<and>
        g2 = g1\<lparr>frameTimeHistory := frameTimeHistory g2, stats := stats g2\<rparr>)"
  proof (cases "statsEnabled g1")
    case True
    then have "updateStats g1 w d = S" by (simp add: S_def)
    from updateStats_shape[OF this] show ?thesis by auto
  next
    case False
    then show ?thesis by (simp add: S_def)
  qed
  then consider (a) g' w' e st where "S = Thrown e (g', w', [Stats st (Some e)])"
    | (b) g2 w2 sevs where "S = Normal (g2, w2, sevs)" "\<forall>x \<in> set sevs. is_stats x"
        "g2 = g1\<lparr>frameTimeHistory := frameTimeHistory g2, stats := stats g2\<rparr>"
    by blast
  then show ?thesis
  proof cases
    case a
    with loop_eq show ?thesis by (intro stats_threw[of e g' w' st]) simp
  next
    case b
    define g2' where "g2' = g2\<lparr>GameLoop.accumulator := GameLoop.accumulator g2 + d\<rparr>"
    have g2'_fields: "running g2'" "GameLoop.frameTime g2' = GameLoop.frameTime g"
      "GameLoop.rafId g2' = GameLoop.rafId g" "callbacks g2' = callbacks g"
      "GameLoop.accumulator g2' = GameLoop.accumulator g + d"
      using run by (simp_all add: g2'_def g1_def, (subst b(3), simp add: g1_def)+)
    have fin: "\<exists>a2. GameLoop.accumulator g2' = Fin a2 \<and> 0 \<le> a2"
      if "GameLoop.accumulator g = Fin a" "0 \<le> a" "GameLoop.lastTime g = Fin l" "l \<le> t" for a l
      using that g2'_fields(5) by (simp add: d_def)
    show ?thesis
    proof (cases "drain g2' w2 0 sevs")
      case (Inl s)
      obtain g' w' evs' where s: "s = (g', w', evs')" by (cases s)
      from drain_Inl[OF Inl[unfolded s]] g2'_fields obtain k e where
        k: "k < MAX_UPDATES_PER_FRAME"
        and ev: "evs' = sevs @ replicate k (Update (GameLoop.frameTime g) None) @
               [Update (GameLoop.frameTime g) (Some e), ConsoleError ''Error in update callback:'' e,
                CancelFrame (GameLoop.rafId g)]"
        and g': "g' = g2'\<lparr>GameLoop.accumulator := GameLoop.accumulator g', running := False\<rparr>"
        by auto
      have "\<not> running g'" by (subst g') simp
      moreover have "loop g w t fid = Normal (g', w', evs')"
        using loop_eq b(1) Inl s by (simp add: g2'_def)
      ultimately show ?thesis using ev k b(2) by (intro update_threw[of g' w' sevs k e]) simp_all
    next
      case (Inr q)
      obtain g3 w3 n evs3 where q: "q = (g3, w3, n, evs3)" by (cases q)
      from drain_Inr[OF Inr[unfolded q]] g2'_fields have
        n: "n \<le> MAX_UPDATES_PER_FRAME"
        and ev: "evs3 = sevs @ replicate n (Update (GameLoop.frameTime g) None)"
        and g3: "g3 = g2'\<lparr>GameLoop.accumulator := GameLoop.accumulator g3\<rparr>"
        and ex: "n < MAX_UPDATES_PER_FRAME \<longrightarrow> \<not> GameLoop.frameTime g \<le> GameLoop.accumulator g3"
        by auto
      have g3_fields: "running g3" "GameLoop.frameTime g3 = GameLoop.frameTime g"
        "GameLoop.rafId g3 = GameLoop.rafId g" "callbacks g3 = callbacks g"
        using g2'_fields by ((subst g3, simp)+)
      have fin3: "\<exists>a3. GameLoop.accumulator g3 = Fin a3 \<and> 0 \<le> a3"
        if "GameLoop.frameTime g = Fin f" "0 < f" "GameLoop.accumulator g = Fin a" "0 \<le> a"
           "GameLoop.lastTime g = Fin l" "l \<le> t" for f a l
      proof -
        from fin[OF that(3-6)] obtain a2 where "GameLoop.accumulator g2' = Fin a2" "0 \<le> a2" by blast
        with drain_Inr_finite[OF Inr[unfolded q], of f a2] that g2'_fields show ?thesis by simp
      qed
      have leq: "loop g w t fid = finish_frame g3 w3 n evs3 fid"
        using loop_eq b(1) Inr q by (simp add: g2'_def)
      from leq[symmetric] show ?thesis
      proof (cases rule: finish_frame_shape)
        case (panic_threw e w')
        with n have nmax: "n = MAX_UPDATES_PER_FRAME" by simp
        have acc3: "GameLoop.accumulator g3 = Fin (a + (t - l) - of_nat MAX_UPDATES_PER_FRAME * f)"
          if "GameLoop.frameTime g = Fin f" "GameLoop.accumulator g = Fin a"
             "GameLoop.lastTime g = Fin l" for f a l
        proof -
          have "GameLoop.accumulator g2' = Fin (a + (t - l))"
            using that g2'_fields(5) by (simp add: d_def)
          with drain_Inr_acc[OF Inr[unfolded q], of f "a + (t - l)"] that(1) g2'_fields(2) nmax
          show ?thesis by simp
        qed
        show ?thesis
          apply (rule that(3)[of e g3 w' sevs])
          subgoal using panic_threw(2) ev nmax by (simp add: leq)
          subgoal using b(2) .
          subgoal for f a l using acc3[of f a l] by blast
          done
      next
        case (render_threw e w' pevs g4)
        have acc: "GameLoop.accumulator (g4\<lparr>running := False\<rparr>) = GameLoop.accumulator g4" by simp
        have g4cases: "g4 = g3\<lparr>GameLoop.accumulator := Fin 0\<rparr> \<or> g4 = g3"
          using render_threw(2) by (auto split: if_splits)
        have fin4: "\<exists>a'. GameLoop.accumulator (g4\<lparr>running := False\<rparr>) = Fin a' \<and> 0 \<le> a'"
          if "GameLoop.frameTime g = Fin f" "0 < f" "GameLoop.accumulator g = Fin a" "0 \<le> a"
           "GameLoop.lastTime g = Fin l" "l \<le> t" for f a l
          using fin3[OF that] g4cases by auto
        show ?thesis
          apply (rule that(4)[of "g4\<lparr>running := False\<rparr>" w' sevs n pevs e])
          subgoal using render_threw(1) ev g3_fields by (simp add: leq)
          subgoal using b(2) .
          subgoal using n .
          subgoal by simp
          subgoal using g4cases g3_fields by auto
          subgoal using render_threw(2) n g3_fields by (auto split: if_splits)
          subgoal using render_threw(2) n ex by (auto split: if_splits)
          subgoal using render_threw(3) .
          subgoal for f a l using fin4[of f a l] by blast
          done
      next
        case (rendered w' pevs g4)
        have g4cases: "g4 = g3\<lparr>GameLoop.accumulator := Fin 0\<rparr> \<or> g4 = g3"
          using rendered(2) by (auto split: if_splits)
        have fin4: "\<exists>a'. GameLoop.accumulator (g4\<lparr>GameLoop.rafId := fid\<rparr>) = Fin a' \<and> 0 \<le> a'"
          if "GameLoop.frameTime g = Fin f" "0 < f" "GameLoop.accumulator g = Fin a" "0 \<le> a"
           "GameLoop.lastTime g = Fin l" "l \<le> t" for f a l
          using fin3[OF that] g4cases by auto
        show ?thesis
          apply (rule that(5)[of "g4\<lparr>GameLoop.rafId := fid\<rparr>" w' sevs n pevs])
          subgoal using rendered(1) ev g3_fields by (simp add: leq)
          subgoal using b(2) .
          subgoal using n .
          subgoal using g4cases g3_fields by auto
          subgoal by simp
          subgoal using g4cases g3_fields by auto
          subgoal using rendered(2) n g3_fields by (auto split: if_splits)
          subgoal using rendered(2) n ex by (auto split: if_splits)
          subgoal using rendered(3) .
          subgoal for f a l using fin4[of f a l] by blast
          done
      qed
    qed
  qed
qed







section \<open>Properties of systems/GameLoop.ts\<close>



lemma fixedTimeStep_value: "fixedTimeStep = Fin (50 / 3)"
  by (simp add: fixedTimeStep_def)

text \<open>Every exception that a callback of the list raised has its log entry.\<close>

lemma forEach_try_events:
  assumes "forEach_try cbs arg mk msg w = (w', evs)"
    and inj: "\<And>r r'. mk arg r = mk arg r' \<Longrightarrow> r = r'"
    and dis: "\<And>r e. mk arg r \<noteq> ConsoleError msg e"
  shows "(\<forall>x \<in> set evs. (\<exists>r. x = mk arg r) \<or> (\<exists>e. x = ConsoleError msg e)) \<and>
         (\<forall>e. mk arg (Some e) \<in> set evs \<longrightarrow> ConsoleError msg e \<in> set evs)"
  using assms(1)
proof (induction cbs arbitrary: w w' evs)
  case Nil
  then show ?case by simp
next
  case (Cons cb cbs)
  show ?case
  proof (cases "cb arg w")
    case (Normal w1)
    obtain w2 evs2 where r: "forEach_try cbs arg mk msg w1 = (w2, evs2)"
      by (cases "forEach_try cbs arg mk msg w1")
    with Normal Cons.prems have e: "evs = mk arg None # evs2" by simp
    from Cons.IH[OF r] inj show ?thesis unfolding e by fastforce
  next
    case (Thrown e1 w1)
    obtain w2 evs2 where r: "forEach_try cbs arg mk msg w1 = (w2, evs2)"
      by (cases "forEach_try cbs arg mk msg w1")
    with Thrown Cons.prems have e: "evs = mk arg (Some e1) # ConsoleError msg e1 # evs2" by simp
    have "ConsoleError msg e \<in> set evs" if "mk arg (Some e) \<in> set evs" for e
    proof -
      from that e dis have "mk arg (Some e) = mk arg (Some e1) \<or> mk arg (Some e) \<in> set evs2"
        by auto
      then show ?thesis
      proof
        assume "mk arg (Some e) = mk arg (Some e1)"
        from inj[OF this] show ?thesis unfolding e by simp
      next
        assume "mk arg (Some e) \<in> set evs2"
        with Cons.IH[OF r] show ?thesis unfolding e by simp
      qed
    qed
    moreover have "\<forall>x \<in> set evs. (\<exists>r. x = mk arg r) \<or> (\<exists>e. x = ConsoleError msg e)"
      using Cons.IH[OF r] unfolding e by auto
    ultimately show ?thesis by blast
  qed
qed

lemma fixed_events_ok_append:
  "fixed_events_ok xs \<Longrightarrow> fixed_events_ok ys \<Longrightarrow> fixed_events_ok (xs @ ys)"
  by (auto simp: fixed_events_ok_def)

lemma fixed_events_ok_forEach:
  "forEach_try cbs fixedTimeStep FixedUpdate ''Error in fixed update callback:'' w = (w', evs) \<Longrightarrow>
     fixed_events_ok evs"
  using forEach_try_events[of cbs fixedTimeStep FixedUpdate "''Error in fixed update callback:''" w w' evs]
  unfolding fixed_events_ok_def by simp

lemma sys_drain_result:
  assumes "sys_drain g w evs = Some r"
  shows "fst r = g\<lparr>SystemsGameLoop.accumulator := SystemsGameLoop.accumulator (fst r)\<rparr> \<and>
     (\<exists>new. snd (snd r) = evs @ new \<and> fixed_events_ok new) \<and>
     \<not> fixedTimeStep \<le> SystemsGameLoop.accumulator (fst r)"
proof (rule sys_drain.raw_induct[OF _ assms], goal_cases)
  case (1 f g w evs r)
  show ?case
  proof (cases "fixedTimeStep \<le> SystemsGameLoop.accumulator g")
    case False
    with 1(2) have "r = (g, w, evs)" by simp
    with False show ?thesis by (auto simp: fixed_events_ok_def)
  next
    case True
    obtain w1 fevs where
      fe: "forEach_try (fixedUpdateCallbacks g) fixedTimeStep FixedUpdate
             ''Error in fixed update callback:'' w = (w1, fevs)"
      by (cases "forEach_try (fixedUpdateCallbacks g) fixedTimeStep FixedUpdate
             ''Error in fixed update callback:'' w")
    let ?g1 = "g\<lparr>SystemsGameLoop.accumulator := SystemsGameLoop.accumulator g - fixedTimeStep\<rparr>"
    from True 1(2) fe have "f ?g1 w1 (evs @ fevs) = Some r" by simp
    from 1(1)[OF this] obtain new where
      a: "fst r = ?g1\<lparr>SystemsGameLoop.accumulator := SystemsGameLoop.accumulator (fst r)\<rparr>"
      and b: "snd (snd r) = (evs @ fevs) @ new" "fixed_events_ok new"
      and c: "\<not> fixedTimeStep \<le> SystemsGameLoop.accumulator (fst r)"
      by blast
    from b fixed_events_ok_forEach[OF fe]
    have "snd (snd r) = evs @ (fevs @ new) \<and> fixed_events_ok (fevs @ new)"
      by (simp add: fixed_events_ok_append)
    with a c show ?thesis by auto
  qed
qed

lemma sys_drain_terminates:
  assumes "SystemsGameLoop.accumulator g = Fin a"
  shows "\<exists>r. sys_drain g w evs = Some r"
  using assms
proof (induction "nat \<lfloor>a / (50 / 3)\<rfloor>" arbitrary: g a w evs rule: less_induct)
  case less
  show ?case
  proof (cases "50 / 3 \<le> a")
    case False
    with less.prems have "sys_drain g w evs = Some (g, w, evs)"
      by (subst sys_drain.simps) (simp add: fixedTimeStep_value)
    then show ?thesis by blast
  next
    case True
    obtain w1 fevs where
      fe: "forEach_try (fixedUpdateCallbacks g) fixedTimeStep FixedUpdate
             ''Error in fixed update callback:'' w = (w1, fevs)"
      by (cases "forEach_try (fixedUpdateCallbacks g) fixedTimeStep FixedUpdate
             ''Error in fixed update callback:'' w")
    let ?g1 = "g\<lparr>SystemsGameLoop.accumulator := SystemsGameLoop.accumulator g - fixedTimeStep\<rparr>"
    have step: "sys_drain g w evs = sys_drain ?g1 w1 (evs @ fevs)"
      using True less.prems fe by (subst sys_drain.simps) (simp add: fixedTimeStep_value)
    have a1: "SystemsGameLoop.accumulator ?g1 = Fin (a - 50 / 3)"
      using less.prems by (simp add: fixedTimeStep_value)
    have "\<lfloor>(a - 50 / 3) / (50 / 3)\<rfloor> = \<lfloor>a / (50 / 3)\<rfloor> - 1"
      by (simp add: diff_divide_distrib)
    moreover have "1 \<le> \<lfloor>a / (50 / 3)\<rfloor>" using True by (simp add: le_floor_iff)
    ultimately have dec: "nat \<lfloor>(a - 50 / 3) / (50 / 3)\<rfloor> < nat \<lfloor>a / (50 / 3)\<rfloor>" by simp
    from less.hyps[OF dec a1, of w1 "evs @ fevs"] step show ?thesis by simp
  qed
qed




section \<open>Properties of Timer.ts\<close>








section \<open>Properties of the loops\<close>

lemmas engine_eval =
  loop_def finish_frame_def handlePanic_def updateStats_def stop_def start_def GameLoop_new_def
  or_default_def truthy_def DEFAULT_FPS_def MAX_UPDATES_PER_FRAME_def Let_def
  quiet_def fast_def started_def broken_update_def panic_warning_def

lemma started_quiet:
  "started quiet =
     \<lparr>GameLoop.fps = Fin 1000, GameLoop.frameTime = Fin 1, running = True, GameLoop.rafId = 1,
      GameLoop.lastTime = Fin 0, GameLoop.accumulator = Fin 0, statsEnabled = False,
      statsSampleSize = Fin 60, frameTimeHistory = [],
      stats = \<lparr>GameLoopStats.fps = Fin 0, GameLoopStats.frameTime = Fin 0,
                updates = Fin 0, renders = Fin 0\<rparr>,
      callbacks = quiet\<rparr>"
  by (simp add: engine_eval)

lemma slow_frame:
  "loop (started quiet) () 50 2 =
     Normal ((started quiet)\<lparr>GameLoop.lastTime := Fin 50, GameLoop.accumulator := Fin 0,
                              GameLoop.rafId := 2\<rparr>, (),
             replicate 10 (Update (Fin 1) None) @
             [panic_warning, Render (Fin 0) None, RequestFrame 2])"
  unfolding started_quiet
  by (simp add: engine_eval drain.simps numeral_eq_Suc)


lemma broken_frame:
  "loop (started (quiet\<lparr>update := broken_update\<rparr>)) () 5 2 =
     Normal ((started (quiet\<lparr>update := broken_update\<rparr>))
               \<lparr>GameLoop.lastTime := Fin 5, GameLoop.accumulator := Fin 5, running := False\<rparr>, (),
             [Update (Fin 1) (Some (Error ''boom'')),
              ConsoleError ''Error in update callback:'' (Error ''boom''), CancelFrame 1])"
  by (simp add: engine_eval drain.simps)

lemma broken_systems_start:
  "sys_start broken_systems_loop () 0 20 1 =
     Some (Normal (broken_systems_loop
                     \<lparr>SystemsGameLoop.lastTime := Fin 20, SystemsGameLoop.accumulator := Fin (10 / 3),
                      isRunning := True, animationFrameId := Some 1\<rparr>, (),
                   [FixedUpdate (Fin (50 / 3)) (Some (Error ''boom'')),
                    ConsoleError ''Error in fixed update callback:'' (Error ''boom''),
                    RequestFrame 1]))"
  by (simp add: sys_start_def sys_tick_def sys_drain.simps broken_systems_loop_def onFixedUpdate_def
        SystemsGameLoop_new_def fixedTimeStep_def GameLoop_maxDeltaTime_def Math_min_def Let_def
        broken_update_def)

lemma broken_systems_tick:
  "sys_tick (broken_systems_loop\<lparr>isRunning := True\<rparr>) () 20 1 =
     Some (broken_systems_loop
             \<lparr>SystemsGameLoop.lastTime := Fin 20, SystemsGameLoop.accumulator := Fin (10 / 3),
              isRunning := True, animationFrameId := Some 1\<rparr>, (),
           [FixedUpdate (Fin (50 / 3)) (Some (Error ''boom'')),
            ConsoleError ''Error in fixed update callback:'' (Error ''boom''),
            RequestFrame 1])"
  by (simp add: sys_tick_def sys_drain.simps broken_systems_loop_def onFixedUpdate_def
        SystemsGameLoop_new_def fixedTimeStep_def GameLoop_maxDeltaTime_def Math_min_def Let_def
        broken_update_def)



subsection \<open>Steps per frame\<close>













subsection \<open>Interpolation\<close>

text \<open>
  The constructor makes the timing fields well-formed when \<^verbatim>\<open>fps\<close> is absent or
  positive, and \<^verbatim>\<open>start\<close>, \<^verbatim>\<open>stop\<close> and a frame whose time stamp is not before the last
  one keep them so.
\<close>

lemma timing_ok_iff:
  "timing_ok g \<longleftrightarrow>
     (\<exists>f a. GameLoop.frameTime g = Fin f \<and> 0 < f \<and> GameLoop.accumulator g = Fin a \<and> 0 \<le> a)"
  by (cases "GameLoop.frameTime g"; cases "GameLoop.accumulator g") (simp_all add: timing_ok_def)

lemma timing_okI:
  "GameLoop.frameTime g = Fin f \<Longrightarrow> 0 < f \<Longrightarrow> GameLoop.accumulator g = Fin a \<Longrightarrow> 0 \<le> a \<Longrightarrow>
     timing_ok g"
  by (auto simp: timing_ok_iff)

lemma drain_keeps_timing:
  assumes "timing_ok g"
  shows "case drain g w n evs of
           Inl (g', w', evs') \<Rightarrow> timing_ok g' \<and> GameLoop.lastTime g' = GameLoop.lastTime g
         | Inr (g', w', n', evs') \<Rightarrow> timing_ok g' \<and> GameLoop.lastTime g' = GameLoop.lastTime g"
  using assms
proof (induction g w n evs rule: drain.induct)
  case (1 g w n evs)
  from "1.prems" obtain f a where
    fa: "GameLoop.frameTime g = Fin f" "0 < f" "GameLoop.accumulator g = Fin a" "0 \<le> a"
    by (auto simp: timing_ok_iff)
  show ?case
  proof (cases "GameLoop.frameTime g \<le> GameLoop.accumulator g \<and> n < MAX_UPDATES_PER_FRAME")
    case False
    then have "drain g w n evs = Inr (g, w, n, evs)" by (subst drain.simps) auto
    with "1.prems" show ?thesis by simp
  next
    case True
    show ?thesis
    proof (cases "update (callbacks g) (GameLoop.frameTime g) w")
      case (Thrown e w1)
      with True have "drain g w n evs =
          Inl (fst (stop g), w1,
               evs @ [Update (GameLoop.frameTime g) (Some e),
                      ConsoleError ''Error in update callback:'' e] @ snd (stop g))"
        by (subst drain.simps) (auto split: prod.splits)
      moreover have "timing_ok (fst (stop g))" "GameLoop.lastTime (fst (stop g)) = GameLoop.lastTime g"
        using "1.prems" by (auto simp: stop_def timing_ok_iff)
      ultimately show ?thesis by simp
    next
      case (Normal w1)
      let ?g1 = "g\<lparr>GameLoop.accumulator := GameLoop.accumulator g - GameLoop.frameTime g\<rparr>"
      from True Normal
      have eq: "drain g w n evs =
              drain ?g1 w1 (n + 1) (evs @ [Update (GameLoop.frameTime g) None])"
        by (subst drain.simps) auto
      have "timing_ok ?g1" using fa True by (intro timing_okI[of _ f "a - f"]) simp_all
      from "1.IH"[OF True Normal this] show ?thesis unfolding eq by (auto split: sum.splits)
    qed
  qed
qed

lemma finish_frame_keeps_timing:
  assumes "timing_ok g"
  shows "timing_ok (fst (payload (finish_frame g w n evs fid))) \<and>
         GameLoop.lastTime (fst (payload (finish_frame g w n evs fid))) = GameLoop.lastTime g"
proof -
  have z: "timing_ok (g\<lparr>GameLoop.accumulator := Fin 0\<rparr>)"
    using assms by (auto simp: timing_ok_iff)
  show ?thesis
    using assms z
    by (auto simp: finish_frame_def Let_def stop_def timing_ok_iff
             split: outcome.splits prod.splits if_splits)
qed

lemma updateStats_keeps_timing:
  "timing_ok (fst (payload (updateStats g w d))) = timing_ok g \<and>
   GameLoop.lastTime (fst (payload (updateStats g w d))) = GameLoop.lastTime g \<and>
   GameLoop.accumulator (fst (payload (updateStats g w d))) = GameLoop.accumulator g \<and>
   GameLoop.frameTime (fst (payload (updateStats g w d))) = GameLoop.frameTime g"
  by (auto simp: updateStats_def Let_def timing_ok_iff split: option.splits outcome.splits)

lemma loop_keeps_timing:
  assumes ok: "timing_ok g" and run: "running g"
    and lt: "GameLoop.lastTime g = Fin l" "l \<le> t"
  shows "timing_ok (fst (payload (loop g w t fid))) \<and>
         GameLoop.lastTime (fst (payload (loop g w t fid))) = Fin t"
proof -
  define d where "d = Fin t - GameLoop.lastTime g"
  define g1 where "g1 = g\<lparr>GameLoop.lastTime := Fin t\<rparr>"
  define S where "S = (if statsEnabled g1 then updateStats g1 w d else Normal (g1, w, []))"
  have loop_eq: "loop g w t fid =
      (case S of
         Thrown e s \<Rightarrow> Thrown e s
       | Normal (g2, w2, evs2) \<Rightarrow>
           (case drain (g2\<lparr>GameLoop.accumulator := GameLoop.accumulator g2 + d\<rparr>) w2 0 evs2 of
              Inl s \<Rightarrow> Normal s
            | Inr (g3, w3, n, evs3) \<Rightarrow> finish_frame g3 w3 n evs3 fid))"
    unfolding loop_def Let_def S_def g1_def d_def using run by simp
  have g1: "timing_ok g1" "GameLoop.lastTime g1 = Fin t"
    "GameLoop.accumulator g1 = GameLoop.accumulator g" "GameLoop.frameTime g1 = GameLoop.frameTime g"
    using ok by (auto simp: g1_def timing_ok_iff)
  have S: "timing_ok (fst (payload S))" "GameLoop.lastTime (fst (payload S)) = Fin t"
    "GameLoop.accumulator (fst (payload S)) = GameLoop.accumulator g"
    "GameLoop.frameTime (fst (payload S)) = GameLoop.frameTime g"
    using g1 updateStats_keeps_timing[of g1 w d] by (auto simp: S_def)
  show ?thesis
  proof (cases S)
    case (Thrown e s)
    with S loop_eq show ?thesis by simp
  next
    case (Normal s)
    obtain g2 w2 evs2 where s: "s = (g2, w2, evs2)" by (cases s)
    define g2' where "g2' = g2\<lparr>GameLoop.accumulator := GameLoop.accumulator g2 + d\<rparr>"
    from S Normal s have g2: "timing_ok g2" "GameLoop.lastTime g2 = Fin t"
      "GameLoop.accumulator g2 = GameLoop.accumulator g" by simp_all
    from ok obtain f a where
      fa: "GameLoop.frameTime g = Fin f" "0 < f" "GameLoop.accumulator g = Fin a" "0 \<le> a"
      by (auto simp: timing_ok_iff)
    have "timing_ok g2'"
      using g2 fa lt S(4) Normal s
      by (intro timing_okI[of _ f "a + (t - l)"]) (simp_all add: g2'_def d_def)
    moreover have "GameLoop.lastTime g2' = Fin t" using g2 by (simp add: g2'_def)
    ultimately have dr: "case drain g2' w2 0 evs2 of
           Inl (g', w', evs') \<Rightarrow> timing_ok g' \<and> GameLoop.lastTime g' = Fin t
         | Inr (g', w', n', evs') \<Rightarrow> timing_ok g' \<and> GameLoop.lastTime g' = Fin t"
      using drain_keeps_timing[of g2' w2 0 evs2] by (auto split: sum.splits)
    show ?thesis
    proof (cases "drain g2' w2 0 evs2")
      case (Inl q)
      with dr loop_eq Normal s show ?thesis by (auto simp: g2'_def)
    next
      case (Inr q)
      obtain g3 w3 n evs3 where q: "q = (g3, w3, n, evs3)" by (cases q)
      with dr Inr have "timing_ok g3" "GameLoop.lastTime g3 = Fin t" by simp_all
      with finish_frame_keeps_timing[of g3 w3 n evs3 fid] loop_eq Normal s Inr q
      show ?thesis by (simp add: g2'_def)
    qed
  qed
qed

lemma GameLoop_new_timing:
  assumes "opt_fps options = None \<or> (\<exists>p. opt_fps options = Some (Fin p) \<and> 0 < p)"
  shows "timing_ok (GameLoop_new cbs options)"
proof -
  from assms obtain p where p: "or_default (opt_fps options) DEFAULT_FPS = Fin p" "0 < p"
    by (auto simp: or_default_def truthy_def DEFAULT_FPS_def)
  then show ?thesis
    by (intro timing_okI[of _ "1000 / p" 0]) (simp_all add: GameLoop_new_def Let_def)
qed

lemma start_keeps_timing:
  "timing_ok g \<Longrightarrow> timing_ok (fst (payload (start g now i)))"
  by (auto simp: start_def timing_ok_iff)

lemma stop_keeps_timing: "timing_ok g \<Longrightarrow> timing_ok (fst (stop g))"
  by (auto simp: stop_def timing_ok_iff)

















subsection \<open>Exceptions in callbacks\<close>

lemma stop_not_running: "\<not> running g \<Longrightarrow> stop g = (g, [])"
  by (simp add: stop_def)

lemma start_not_running:
  "\<not> running g \<Longrightarrow>
     start g now i =
       Normal (g\<lparr>running := True, GameLoop.lastTime := Fin now, GameLoop.rafId := i\<rparr>,
               [RequestFrame i])"
  by (simp add: start_def)

lemma stats_only:
  assumes "\<forall>z \<in> set sevs. is_stats z"
  shows "Update d r \<notin> set sevs" "Render al r \<notin> set sevs" "RequestFrame i \<notin> set sevs"
  using assms by (auto dest: bspec)

lemma panic_only:
  assumes "\<forall>z \<in> set pevs. z = Panic None \<or> z = panic_warning"
  shows "Update d r \<notin> set pevs" "Render al r \<notin> set pevs" "RequestFrame i \<notin> set pevs"
  using assms by (auto simp: panic_warning_def)

lemma loop_callback_exception:
  assumes run: "running g"
    and res: "payload (loop g w t fid) = (g', w', evs)"
    and exn: "Update d (Some e) \<in> set evs \<or> Render al (Some e) \<in> set evs"
  shows "loop g w t fid = Normal (g', w', evs) \<and>
         (ConsoleError ''Error in update callback:'' e \<in> set evs \<or>
          ConsoleError ''Error in render callback:'' e \<in> set evs) \<and>
         \<not> running g' \<and> (\<forall>i. RequestFrame i \<notin> set evs)"
  using run
proof (cases rule: loop_shape[of g w t fid])
  case (stats_threw e1 g1 w1 st)
  with res exn show ?thesis by auto
next
  case (update_threw g1 w1 sevs k e1)
  have ns: "\<And>z. z \<in> set sevs \<Longrightarrow> is_stats z" using update_threw(2) by blast
  from update_threw(1) res have eq: "g1 = g'" "w1 = w'"
    "evs = sevs @ replicate k (Update (GameLoop.frameTime g) None) @
       [Update (GameLoop.frameTime g) (Some e1), ConsoleError ''Error in update callback:'' e1,
        CancelFrame (GameLoop.rafId g)]"
    by auto
  have "e = e1" using exn ns unfolding eq(3) by (auto dest: ns)
  moreover have "\<forall>i. RequestFrame i \<notin> set evs" using ns unfolding eq(3) by (auto dest: ns)
  ultimately show ?thesis using update_threw(1,4) eq by auto
next
  case (panic_threw g1 w1 sevs e1)
  from panic_threw(1) res exn stats_only[OF panic_threw(2)] show ?thesis by auto
next
  case (render_threw g1 w1 sevs n pevs e1)
  have ns: "\<And>z. z \<in> set sevs \<Longrightarrow> is_stats z" using render_threw(2) by blast
  have np: "\<And>z. z \<in> set pevs \<Longrightarrow> z = Panic None \<or> z = panic_warning"
    using render_threw(8) by blast
  from render_threw(1) res have eq: "g1 = g'" "w1 = w'"
    "evs = sevs @ replicate n (Update (GameLoop.frameTime g) None) @ pevs @
       [Render (js_div (GameLoop.accumulator g') (GameLoop.frameTime g)) (Some e1),
        ConsoleError ''Error in render callback:'' e1, CancelFrame (GameLoop.rafId g)]"
    by auto
  have "e = e1" using exn unfolding eq(3) by (auto simp: panic_warning_def dest: ns np)
  moreover have "\<forall>i. RequestFrame i \<notin> set evs"
    unfolding eq(3) by (auto simp: panic_warning_def dest: ns np)
  ultimately show ?thesis using render_threw(1,4) eq by auto
next
  case (rendered g1 w1 sevs n pevs)
  have ns: "\<And>z. z \<in> set sevs \<Longrightarrow> is_stats z" using rendered(2) by blast
  have np: "\<And>z. z \<in> set pevs \<Longrightarrow> z = Panic None \<or> z = panic_warning"
    using rendered(9) by blast
  from rendered(1) res have eq:
    "evs = sevs @ replicate n (Update (GameLoop.frameTime g) None) @ pevs @
       [Render (js_div (GameLoop.accumulator g1) (GameLoop.frameTime g)) None, RequestFrame fid]"
    by auto
  from exn show ?thesis unfolding eq by (auto simp: panic_warning_def dest: ns np)
qed

lemma sys_tick_carries_on:
  assumes "isRunning sg" "sys_tick sg sw now fid = Some (sg', sw', sevs)"
  shows "isRunning sg' \<and> animationFrameId sg' = Some fid \<and> RequestFrame fid \<in> set sevs \<and>
         (\<forall>e. FixedUpdate fixedTimeStep (Some e) \<in> set sevs \<longrightarrow>
              ConsoleError ''Error in fixed update callback:'' e \<in> set sevs) \<and>
         (\<forall>al e. Render al (Some e) \<in> set sevs \<longrightarrow>
              ConsoleError ''Error in render callback:'' e \<in> set sevs)"
proof -
  define d where "d = Math_min (Fin now - SystemsGameLoop.lastTime sg) GameLoop_maxDeltaTime"
  define g2 where "g2 = sg\<lparr>SystemsGameLoop.lastTime := Fin now,
                           SystemsGameLoop.accumulator := SystemsGameLoop.accumulator sg + d\<rparr>"
  obtain w1 evs1 where u: "forEach_try (updateCallbacks g2) d Update
                            ''Error in update callback:'' sw = (w1, evs1)"
    by (cases "forEach_try (updateCallbacks g2) d Update ''Error in update callback:'' sw")
  have tick: "sys_tick sg sw now fid =
      (case sys_drain g2 w1 evs1 of
         None \<Rightarrow> None
       | Some (g3, w3, evs3) \<Rightarrow>
           (let alpha = js_div (SystemsGameLoop.accumulator g3) fixedTimeStep;
                (w4, evs4) = forEach_try (renderCallbacks g3) alpha Render
                               ''Error in render callback:'' w3
            in Some (g3\<lparr>animationFrameId := Some fid\<rparr>, w4, evs3 @ evs4 @ [RequestFrame fid])))"
    using assms(1) u unfolding sys_tick_def Let_def g2_def d_def by simp
  from assms(2) tick obtain g3 w3 evs3 where dr: "sys_drain g2 w1 evs1 = Some (g3, w3, evs3)"
    by (auto split: option.splits)
  define alpha where "alpha = js_div (SystemsGameLoop.accumulator g3) fixedTimeStep"
  obtain w4 evs4 where rn: "forEach_try (renderCallbacks g3) alpha Render
                               ''Error in render callback:'' w3 = (w4, evs4)"
    by (cases "forEach_try (renderCallbacks g3) alpha Render ''Error in render callback:'' w3")
  from assms(2) tick dr rn have res: "sg' = g3\<lparr>animationFrameId := Some fid\<rparr>"
    "sevs = evs3 @ evs4 @ [RequestFrame fid]"
    by (simp_all add: alpha_def)
  from sys_drain_result[OF dr] obtain new where
    g3: "g3 = g2\<lparr>SystemsGameLoop.accumulator := SystemsGameLoop.accumulator g3\<rparr>"
    and new: "evs3 = evs1 @ new" "fixed_events_ok new" by auto
  have run: "isRunning sg'" unfolding res(1) by (subst g3) (simp add: g2_def assms(1))
  have e1: "\<forall>z \<in> set evs1. (\<exists>r. z = Update d r) \<or> (\<exists>e. z = ConsoleError ''Error in update callback:'' e)"
    using forEach_try_events[OF u] by simp
  have e4: "\<forall>z \<in> set evs4. (\<exists>r. z = Render alpha r) \<or> (\<exists>e. z = ConsoleError ''Error in render callback:'' e)"
    "\<forall>e. Render alpha (Some e) \<in> set evs4 \<longrightarrow> ConsoleError ''Error in render callback:'' e \<in> set evs4"
    using forEach_try_events[OF rn] by simp_all
  have en: "\<forall>z \<in> set new. (\<exists>r. z = FixedUpdate fixedTimeStep r) \<or>
                     (\<exists>e. z = ConsoleError ''Error in fixed update callback:'' e)"
    "\<forall>e. FixedUpdate fixedTimeStep (Some e) \<in> set new \<longrightarrow>
          ConsoleError ''Error in fixed update callback:'' e \<in> set new"
    using new(2) by (simp_all add: fixed_events_ok_def)
  have fixed: "ConsoleError ''Error in fixed update callback:'' e \<in> set sevs"
    if "FixedUpdate fixedTimeStep (Some e) \<in> set sevs" for e
  proof -
    from that have "FixedUpdate fixedTimeStep (Some e) \<in> set new"
      unfolding res(2) new(1) using e1 e4(1) by auto
    with en(2) show ?thesis unfolding res(2) new(1) by simp
  qed
  have rend: "ConsoleError ''Error in render callback:'' e \<in> set sevs"
    if "Render al (Some e) \<in> set sevs" for al e
  proof -
    from that have in4: "Render al (Some e) \<in> set evs4"
      unfolding res(2) new(1) using e1 en(1) by auto
    with e4(1) have "al = alpha" by auto
    with in4 e4(2) show ?thesis unfolding res(2) by simp
  qed
  from run fixed rend show ?thesis unfolding res by auto
qed

lemma sys_tick_terminates:
  assumes "SystemsGameLoop.accumulator sg = Fin a" "SystemsGameLoop.lastTime sg = Fin l"
  shows "\<exists>res. sys_tick sg sw now fid = Some res"
proof (cases "isRunning sg")
  case False
  then show ?thesis by (simp add: sys_tick_def)
next
  case True
  define d where "d = Math_min (Fin now - SystemsGameLoop.lastTime sg) GameLoop_maxDeltaTime"
  define g2 where "g2 = sg\<lparr>SystemsGameLoop.lastTime := Fin now,
                           SystemsGameLoop.accumulator := SystemsGameLoop.accumulator sg + d\<rparr>"
  obtain w1 evs1 where u: "forEach_try (updateCallbacks g2) d Update
                            ''Error in update callback:'' sw = (w1, evs1)"
    by (cases "forEach_try (updateCallbacks g2) d Update ''Error in update callback:'' sw")
  have tick: "sys_tick sg sw now fid =
      (case sys_drain g2 w1 evs1 of
         None \<Rightarrow> None
       | Some (g3, w3, evs3) \<Rightarrow>
           (let alpha = js_div (SystemsGameLoop.accumulator g3) fixedTimeStep;
                (w4, evs4) = forEach_try (renderCallbacks g3) alpha Render
                               ''Error in render callback:'' w3
            in Some (g3\<lparr>animationFrameId := Some fid\<rparr>, w4, evs3 @ evs4 @ [RequestFrame fid])))"
    using True u unfolding sys_tick_def Let_def g2_def d_def by simp
  have "d = Fin (min (now - l) 100)"
    using assms by (simp add: d_def Math_min_Fin GameLoop_maxDeltaTime_def)
  then have "SystemsGameLoop.accumulator g2 = Fin (a + min (now - l) 100)"
    using assms by (simp add: g2_def)
  from sys_drain_terminates[OF this, of w1 evs1] obtain r where "sys_drain g2 w1 evs1 = Some r"
    by blast
  then show ?thesis unfolding tick by (auto simp: Let_def split: prod.splits)
qed


text \<open>
  C4 (amended).  In engine/GameLoop.ts an exception raised by the update or the render
  callback is caught in \<^verbatim>\<open>loop\<close> and logged, the loop is stopped and requests no further
  frame; \<^verbatim>\<open>stop()\<close> is then a no-op and \<^verbatim>\<open>start()\<close> starts the loop again.  In
  systems/GameLoop.ts such an exception is caught and logged for the one callback, and
  the loop carries on: \<^verbatim>\<open>tick\<close> ends with the loop still running and the next frame
  requested; a tick from a finite accumulator and last time stamp does return.
\<close>

theorem callback_exceptions:
  "(running g \<and> payload (loop g w t fid) = (g', w', evs) \<and>
    (Update d (Some e) \<in> set evs \<or> Render al (Some e) \<in> set evs) \<longrightarrow>
      loop g w t fid = Normal (g', w', evs) \<and>
      (ConsoleError ''Error in update callback:'' e \<in> set evs \<or>
       ConsoleError ''Error in render callback:'' e \<in> set evs) \<and>
      \<not> running g' \<and> (\<forall>j. RequestFrame j \<notin> set evs) \<and>
      stop g' = (g', []) \<and>
      start g' now i =
        Normal (g'\<lparr>running := True, GameLoop.lastTime := Fin now, GameLoop.rafId := i\<rparr>,
                [RequestFrame i]))
   \<and> (isRunning sg \<and> sys_tick sg sw snow sfid = Some (sg', sw', sevs) \<longrightarrow>
        isRunning sg' \<and> animationFrameId sg' = Some sfid \<and> RequestFrame sfid \<in> set sevs \<and>
        (\<forall>z. FixedUpdate fixedTimeStep (Some z) \<in> set sevs \<longrightarrow>
             ConsoleError ''Error in fixed update callback:'' z \<in> set sevs) \<and>
        (\<forall>b z. Render b (Some z) \<in> set sevs \<longrightarrow>
             ConsoleError ''Error in render callback:'' z \<in> set sevs))
   \<and> (SystemsGameLoop.accumulator sg = Fin a \<and> SystemsGameLoop.lastTime sg = Fin l \<longrightarrow>
        (\<exists>res. sys_tick sg sw snow sfid = Some res))"
proof -
  have engine: "loop g w t fid = Normal (g', w', evs) \<and>
      (ConsoleError ''Error in update callback:'' e \<in> set evs \<or>
       ConsoleError ''Error in render callback:'' e \<in> set evs) \<and>
      \<not> running g' \<and> (\<forall>j. RequestFrame j \<notin> set evs) \<and>
      stop g' = (g', []) \<and>
      start g' now i =
        Normal (g'\<lparr>running := True, GameLoop.lastTime := Fin now, GameLoop.rafId := i\<rparr>,
                [RequestFrame i])"
    if "running g" "payload (loop g w t fid) = (g', w', evs)"
       "Update d (Some e) \<in> set evs \<or> Render al (Some e) \<in> set evs"
    using loop_callback_exception[OF that] stop_not_running[of g'] start_not_running[of g' now i]
    by blast
  show ?thesis
    using engine sys_tick_carries_on[of sg sw snow sfid sg' sw' sevs]
      sys_tick_terminates[of sg a l sw snow sfid]
    by blast
qed

theorem callback_exceptions_witness:
  "running (started (quiet\<lparr>update := broken_update\<rparr>)) \<and>
   loop (started (quiet\<lparr>update := broken_update\<rparr>)) () 5 2 =
     Normal ((started (quiet\<lparr>update := broken_update\<rparr>))
               \<lparr>GameLoop.lastTime := Fin 5, GameLoop.accumulator := Fin 5, running := False\<rparr>, (),
             [Update (Fin 1) (Some (Error ''boom'')),
              ConsoleError ''Error in update callback:'' (Error ''boom''), CancelFrame 1]) \<and>
   \<not> running ((started (quiet\<lparr>update := broken_update\<rparr>))
               \<lparr>GameLoop.lastTime := Fin 5, GameLoop.accumulator := Fin 5, running := False\<rparr>) \<and>
   stop ((started (quiet\<lparr>update := broken_update\<rparr>))
           \<lparr>GameLoop.lastTime := Fin 5, GameLoop.accumulator := Fin 5, running := False\<rparr>) =
     ((started (quiet\<lparr>update := broken_update\<rparr>))
        \<lparr>GameLoop.lastTime := Fin 5, GameLoop.accumulator := Fin 5, running := False\<rparr>, []) \<and>
   start ((started (quiet\<lparr>update := broken_update\<rparr>))
            \<lparr>GameLoop.lastTime := Fin 5, GameLoop.accumulator := Fin 5, running := False\<rparr>) 9 3 =
     Normal ((started (quiet\<lparr>update := broken_update\<rparr>))
               \<lparr>GameLoop.lastTime := Fin 5, GameLoop.accumulator := Fin 5, running := False,
                running := True, GameLoop.lastTime := Fin 9, GameLoop.rafId := 3\<rparr>,
             [RequestFrame 3]) \<and>
   isRunning (broken_systems_loop\<lparr>isRunning := True\<rparr>) \<and>
   SystemsGameLoop.accumulator (broken_systems_loop\<lparr>isRunning := True\<rparr>) = Fin 0 \<and>
   SystemsGameLoop.lastTime (broken_systems_loop\<lparr>isRunning := True\<rparr>) = Fin 0 \<and>
   sys_tick (broken_systems_loop\<lparr>isRunning := True\<rparr>) () 20 1 =
     Some (broken_systems_loop
             \<lparr>SystemsGameLoop.lastTime := Fin 20, SystemsGameLoop.accumulator := Fin (10 / 3),
              isRunning := True, animationFrameId := Some 1\<rparr>, (),
           [FixedUpdate (Fin (50 / 3)) (Some (Error ''boom'')),
            ConsoleError ''Error in fixed update callback:'' (Error ''boom''),
            RequestFrame 1]) \<and>
   isRunning (broken_systems_loop
             \<lparr>SystemsGameLoop.lastTime := Fin 20, SystemsGameLoop.accumulator := Fin (10 / 3),
              isRunning := True, animationFrameId := Some 1\<rparr>)"
proof -
  let ?g = "started (quiet\<lparr>update := broken_update\<rparr>)"
  let ?g' = "?g\<lparr>GameLoop.lastTime := Fin 5, GameLoop.accumulator := Fin 5, running := False\<rparr>"
  let ?evs = "[Update (Fin 1) (Some (Error ''boom'')),
               ConsoleError ''Error in update callback:'' (Error ''boom''), CancelFrame 1]"
  let ?sg = "broken_systems_loop\<lparr>isRunning := True\<rparr>"
  let ?sg' = "broken_systems_loop
             \<lparr>SystemsGameLoop.lastTime := Fin 20, SystemsGameLoop.accumulator := Fin (10 / 3),
              isRunning := True, animationFrameId := Some 1\<rparr>"
  let ?sevs = "[FixedUpdate (Fin (50 / 3)) (Some (Error ''boom'')),
                ConsoleError ''Error in fixed update callback:'' (Error ''boom''),
                RequestFrame 1]"
  have r: "running ?g" by (simp add: engine_eval)
  have p: "payload (loop ?g () 5 2) = (?g', (), ?evs)" by (simp add: broken_frame)
  have u: "Update (Fin 1) (Some (Error ''boom'')) \<in> set ?evs" by simp
  have s: "isRunning ?sg" "SystemsGameLoop.accumulator ?sg = Fin 0"
    "SystemsGameLoop.lastTime ?sg = Fin 0"
    by (simp_all add: broken_systems_loop_def onFixedUpdate_def SystemsGameLoop_new_def)
  from callback_exceptions
         [of ?g "()" 5 2 ?g' "()" ?evs "Fin 1" "Error ''boom''" "Fin 0" 9 3
             ?sg "()" 20 1 ?sg' "()" ?sevs 0 0]
       r p u s broken_systems_tick broken_frame
  show ?thesis by simp
qed

text \<open>
  C4 as stated fails on systems/GameLoop.ts: the only fixed-update callback throws in
  the first tick, and the loop is still running afterwards, with the next frame
  requested.
\<close>

theorem systems_loop_keeps_running:
  "sys_start broken_systems_loop () 0 20 1 =
     Some (Normal (broken_systems_loop
                     \<lparr>SystemsGameLoop.lastTime := Fin 20, SystemsGameLoop.accumulator := Fin (10 / 3),
                      isRunning := True, animationFrameId := Some 1\<rparr>, (),
                   [FixedUpdate (Fin (50 / 3)) (Some (Error ''boom'')),
                    ConsoleError ''Error in fixed update callback:'' (Error ''boom''),
                    RequestFrame 1])) \<and>
   isRunning (broken_systems_loop
                \<lparr>SystemsGameLoop.lastTime := Fin 20, SystemsGameLoop.accumulator := Fin (10 / 3),
                 isRunning := True, animationFrameId := Some 1\<rparr>)"
  using broken_systems_start by simp

subsection \<open>Starting twice\<close>

lemma sys_start_running:
  "isRunning sg \<Longrightarrow>
     sys_start sg sw now now' fid =
       Some (Thrown (Error ''Game loop is already running'') (sg, sw, []))"
  by (simp add: sys_start_def)

lemma start_running: "running g \<Longrightarrow> start g now fid = Normal (g, [])"
  by (simp add: start_def)

text \<open>
  C5 (amended).  \<^verbatim>\<open>start()\<close> of systems/GameLoop.ts on a running loop throws
  ``Game loop is already running'' and changes nothing.  \<^verbatim>\<open>start()\<close> of engine/GameLoop.ts
  on a running loop returns without an error; it too changes nothing and requests no
  frame.
\<close>

theorem start_while_running:
  "(isRunning sg \<longrightarrow>
      sys_start sg sw now now' fid =
        Some (Thrown (Error ''Game loop is already running'') (sg, sw, [])))
   \<and> (running g \<longrightarrow> start g t i = Normal (g, []))"
  using sys_start_running[of sg sw now now' fid] start_running[of g t i] by blast

theorem start_while_running_witness:
  "isRunning (broken_systems_loop\<lparr>isRunning := True\<rparr>) \<and>
   sys_start (broken_systems_loop\<lparr>isRunning := True\<rparr>) () 5 6 2 =
     Some (Thrown (Error ''Game loop is already running'')
             (broken_systems_loop\<lparr>isRunning := True\<rparr>, (), [])) \<and>
   running (started quiet) \<and>
   start (started quiet) 5 2 = Normal (started quiet, [])"
proof -
  have a: "isRunning (broken_systems_loop\<lparr>isRunning := True\<rparr>)" by simp
  have b: "running (started quiet)" by (simp add: started_quiet)
  from start_while_running
         [of "broken_systems_loop\<lparr>isRunning := True\<rparr>" "()" 5 6 2 "started quiet" 5 2] a b
  show ?thesis by simp
qed

text \<open>
  C5 as stated fails on engine/GameLoop.ts: a second \<^verbatim>\<open>start()\<close> returns normally.
\<close>

theorem engine_start_twice_is_silent:
  "running (started quiet) \<and> start (started quiet) 5 2 = Normal (started quiet, [])"
  by (simp add: started_quiet start_def)

end
